theory Spec2Isabelle
  imports Main "HOL-Library.Word"
begin

unbundle bit_operations_syntax

section \<open>Geometry hashing of the D3D9 front end\<close>

text \<open>
  The development follows the translation unit that defines \<open>getVertexRegion\<close>,
  \<open>deduplicateSortIndices\<close>, \<open>hashGeometryData\<close>, \<open>D3D9Rtx::computeHash\<close> and
  \<open>D3D9Rtx::computeAxisAlignedBoundingBox\<close>.

  Conventions of the embedding:
  \<^item> a pointer into mapped memory is the list of bytes that starts at the pointer
    (\<open>None\<close> is \<open>nullptr\<close>); a read past the end of that list, a read through
    \<open>nullptr\<close> and an out-of-range \<open>std::vector\<close> subscript are faults;
  \<open>assert\<close> is a fault when its condition is false;
  \<^item> \<open>uint32_t\<close> is \<open>32 word\<close>; \<open>size_t\<close> values are natural numbers (no
    \<open>size_t\<close> computation of this file can reach \<open>2 ^ 64\<close> from the 32-bit counts it
    is given); a loop whose 32-bit counter is compared with a \<open>size_t\<close> bound may not
    terminate and is a partial function;
  \<^item> multi-byte values are little endian, as on the x86 targets of the program.
\<close>

type_synonym byte = "8 word"
type_synonym uint32_t = "32 word"
type_synonym XXH64_hash_t = "64 word"

datatype fault = AssertionFailed | OutOfBoundsAccess | NullDereference

subsection \<open>Typed reads from mapped memory\<close>

definition loadLE :: "byte list \<Rightarrow> 'a::len word" where
  "loadLE bs = foldr (\<lambda>b acc. ucast b OR push_bit 8 acc) bs 0"

text \<open>\<open>((T*) pIndexData)[i]\<close>, with \<open>sizeof(T) = LENGTH('a) div 8\<close>.\<close>

definition readIndex :: "byte list option \<Rightarrow> nat \<Rightarrow> fault + 'a::len word" where
  "readIndex pIndexData i =
     (case pIndexData of
        None \<Rightarrow> Inl NullDereference
      | Some mem \<Rightarrow>
          (let sz = LENGTH('a) div 8
           in if (i + 1) * sz \<le> length mem
              then Inr (loadLE (take sz (drop (i * sz) mem)))
              else Inl OutOfBoundsAccess))"

subsection \<open>\<open>deduplicateSortIndices\<close>\<close>

text \<open>\<open>std::vector::resize(n, v)\<close>: keeps the first \<open>n\<close> elements, pads with \<open>v\<close>.\<close>

definition resize :: "nat \<Rightarrow> 'a \<Rightarrow> 'a list \<Rightarrow> 'a list" where
  "resize n v xs = take n xs @ replicate (n - length xs) v"

text \<open>
  First loop: \<open>for (uint32_t i = 0; i < indexCount; i++)\<close>, marking the bin of every
  index read. \<open>indexCount\<close> is a \<open>size_t\<close>, the counter wraps at \<open>2 ^ 32\<close>.
\<close>

partial_function (option) markBins ::
  "byte list option \<Rightarrow> nat \<Rightarrow> uint32_t \<Rightarrow> uint32_t \<Rightarrow> 'a::len word list
     \<Rightarrow> (fault + 'a word list) option" where
  "markBins pIndexData indexCount maxIndexValue i uniqueIndicesOut =
     (if unat i < indexCount then
        (case (readIndex pIndexData (unat i) :: fault + 'a word) of
           Inl f \<Rightarrow> Some (Inl f)
         | Inr index \<Rightarrow>
             if \<not> unat index \<le> unat maxIndexValue then Some (Inl AssertionFailed)
             else if \<not> unat index < length uniqueIndicesOut then Some (Inl OutOfBoundsAccess)
             else markBins pIndexData indexCount maxIndexValue (i + 1)
                    (uniqueIndicesOut[unat index := 1]))
      else Some (Inr uniqueIndicesOut))"

declare markBins.simps [code]

text \<open>
  Second loop: \<open>for (uint32_t i = 0; i < indexRange; i++)\<close>, compacting the marked bins
  in place; \<open>i\<close> is converted to \<open>T\<close> when stored.
\<close>

function compactBins ::
  "uint32_t \<Rightarrow> uint32_t \<Rightarrow> uint32_t \<Rightarrow> 'a::len word list \<Rightarrow> fault + (uint32_t \<times> 'a word list)" where
  "compactBins indexRange i uniqueIndexCount uniqueIndicesOut =
     (if i < indexRange then
        (if \<not> unat i < length uniqueIndicesOut then Inl OutOfBoundsAccess
         else if uniqueIndicesOut ! unat i \<noteq> 0 then
           (if \<not> unat uniqueIndexCount < length uniqueIndicesOut then Inl OutOfBoundsAccess
            else compactBins indexRange (i + 1) (uniqueIndexCount + 1)
                   (uniqueIndicesOut[unat uniqueIndexCount := ucast i]))
         else compactBins indexRange (i + 1) uniqueIndexCount uniqueIndicesOut)
      else Inr (uniqueIndexCount, uniqueIndicesOut))"
  by pat_completeness auto
termination
proof (relation "measure (\<lambda>(indexRange, i, c, out). unat indexRange - unat i)")
  show "wf (measure (\<lambda>(indexRange :: uint32_t, i :: uint32_t, c :: uint32_t, out :: 'a word list).
              unat indexRange - unat i))"
    by simp
next
  fix indexRange i uniqueIndexCount :: uint32_t and uniqueIndicesOut :: "'a word list"
  assume "i < indexRange"
  then have "unat (i + 1) = unat i + 1" "unat i < unat indexRange"
    by unat_arith+
  then show "((indexRange, i + 1, uniqueIndexCount + 1, uniqueIndicesOut[unat uniqueIndexCount := ucast i]),
              (indexRange, i, uniqueIndexCount, uniqueIndicesOut))
             \<in> measure (\<lambda>(indexRange, i, c, out). unat indexRange - unat i)"
    by simp
  from \<open>unat (i + 1) = unat i + 1\<close> \<open>unat i < unat indexRange\<close>
  show "((indexRange, i + 1, uniqueIndexCount, uniqueIndicesOut),
         (indexRange, i, uniqueIndexCount, uniqueIndicesOut))
        \<in> measure (\<lambda>(indexRange, i, c, out). unat indexRange - unat i)"
    by simp
qed

declare compactBins.simps [simp del]

definition deduplicateSortIndices ::
  "byte list option \<Rightarrow> nat \<Rightarrow> uint32_t \<Rightarrow> 'a::len word list \<Rightarrow> (fault + 'a word list) option" where
  "deduplicateSortIndices pIndexData indexCount maxIndexValue uniqueIndicesOut =
     (let indexRange = maxIndexValue + 1;
          out0 = resize (unat indexRange) 0 uniqueIndicesOut
      in case markBins pIndexData indexCount maxIndexValue 0 out0 of
           None \<Rightarrow> None
         | Some (Inl f) \<Rightarrow> Some (Inl f)
         | Some (Inr out1) \<Rightarrow>
             (case compactBins indexRange 0 0 out1 of
                Inl f \<Rightarrow> Some (Inl f)
              | Inr (uniqueIndexCount, out2) \<Rightarrow> Some (Inr (resize (unat uniqueIndexCount) 0 out2))))"


subsection \<open>Hash components, rules and results\<close>

text \<open>
  Modelled from the spec: the enumeration \<open>HashComponents\<close> (declared in a header that
  is not part of the sources at hand) has the members, in this order, that the data model
  lists; a \<open>HashRule\<close> is a set of them and \<open>test\<close> is membership.
\<close>

datatype HashComponents =
    VertexPosition | VertexTexcoord | Indices | LegacyIndices
  | LegacyPositions0 | LegacyPositions1 | GeometryDescriptor | VertexLayout | VertexShader

definition allComponents :: "HashComponents list" where
  "allComponents = [VertexPosition, VertexTexcoord, Indices, LegacyIndices,
                    LegacyPositions0, LegacyPositions1, GeometryDescriptor, VertexLayout,
                    VertexShader]"

type_synonym HashRule = "HashComponents set"

definition test :: "HashRule \<Rightarrow> HashComponents \<Rightarrow> bool" where
  "test rule component = (component \<in> rule)"

datatype VertexRegionsType = Position | Texcoord

definition componentToRegionMap :: "HashComponents \<rightharpoonup> VertexRegionsType" where
  "componentToRegionMap = [VertexPosition \<mapsto> Position, VertexTexcoord \<mapsto> Texcoord]"

text \<open>
  \<open>HashQuery\<close>: the fields that \<open>getVertexRegion\<close> fills. \<open>ref\<close> is the identity of the
  owning \<open>DxvkBuffer\<close> (\<open>None\<close> is \<open>nullptr\<close>). The widths of the integer fields are
  declared outside the sources at hand; they are natural numbers here.
\<close>

record HashQuery =
  pBase :: "byte list option"
  elementSize :: nat
  stride :: nat
  size :: nat
  ref :: "nat option"

text \<open>\<open>memset(&vertexRegions[0], 0, sizeof(vertexRegions))\<close>\<close>

definition zeroHashQuery :: HashQuery where
  "zeroHashQuery = \<lparr>pBase = None, elementSize = 0, stride = 0, size = 0, ref = None\<rparr>"

text \<open>
  Modelled from the spec: \<open>GeometryHashes\<close> is a fixed-size mapping from
  \<open>HashComponents\<close> to 64-bit hashes, every entry being the empty-hash sentinel until
  it is computed, plus a derived combined hash.
\<close>

record GeometryHashes =
  entries :: "HashComponents \<Rightarrow> XXH64_hash_t"
  precombined :: XXH64_hash_t

subsection \<open>Geometry handed to the front end\<close>

text \<open>
  \<open>RasterBuffer\<close> and \<open>RasterGeometry\<close> are declared outside the sources at hand; the
  records have one field for each accessor that the functions below call
  (\<open>geoIndexCount\<close> and \<open>geoVertexCount\<close> are the members \<open>indexCount\<close> and
  \<open>vertexCount\<close> of \<open>RasterGeometry\<close>).
  \<open>mapPtr buffer offset\<close> is the mapped memory that starts \<open>offset\<close> bytes into the
  buffer, \<open>bufferPtr\<close> the identity of the \<open>DxvkBuffer\<close> that \<open>buffer().ptr()\<close> points
  to (\<open>None\<close> is \<open>nullptr\<close>).
\<close>

record RasterBuffer =
  defined :: bool
  mapPtr :: "nat \<Rightarrow> byte list option"
  offsetFromSlice :: nat
  vertexFormat :: nat
  stride :: nat
  bufferPtr :: "nat option"
  indexType :: nat

record RasterGeometry =
  geoIndexCount :: uint32_t
  geoVertexCount :: uint32_t
  positionBuffer :: RasterBuffer
  texcoordBuffer :: RasterBuffer
  indexBuffer :: RasterBuffer
  topology :: nat

text \<open>
  The hash primitives of \<^verbatim>\<open>rtx_hashing.h\<close> and of the xxHash library are not part of
  the sources at hand and are parameters of the development. Each one receives the
  bytes that the call hands to it (a pointer and a byte count in the source).
\<close>

record hashing =
  kEmptyHash :: XXH64_hash_t
  XXH3_64bits :: "byte list \<Rightarrow> XXH64_hash_t"
  XXH3_64bits_withSeed :: "byte list \<Rightarrow> XXH64_hash_t \<Rightarrow> XXH64_hash_t"
  hashContiguousMemory :: "byte list \<Rightarrow> XXH64_hash_t"
  hashIndicesLegacy :: "nat \<Rightarrow> byte list \<Rightarrow> XXH64_hash_t"
  hashRegionLegacy ::
    "byte list option \<Rightarrow> nat \<Rightarrow> nat \<Rightarrow> nat \<Rightarrow> XXH64_hash_t \<Rightarrow> XXH64_hash_t
       \<Rightarrow> XXH64_hash_t \<times> XXH64_hash_t"
  hashGeometryDescriptor :: "uint32_t \<Rightarrow> uint32_t \<Rightarrow> nat \<Rightarrow> nat \<Rightarrow> XXH64_hash_t"
  hashVertexLayout :: "RasterGeometry \<Rightarrow> XXH64_hash_t"
  imageFormatElementSize :: "nat \<Rightarrow> nat"
  precombine :: "HashRule \<Rightarrow> (HashComponents \<Rightarrow> XXH64_hash_t) \<Rightarrow> XXH64_hash_t"

definition emptyGeometryHashes :: "hashing \<Rightarrow> GeometryHashes" where
  "emptyGeometryHashes H = \<lparr>entries = (\<lambda>_. kEmptyHash H), precombined = kEmptyHash H\<rparr>"

text \<open>
  Modelled from the spec: \<open>hashVertexRegionIndexed\<close> (defined in \<^verbatim>\<open>rtx_hashing.h\<close>, which
  is not part of the sources at hand). A region of size 0 is an absent stream and is not
  hashed, so its component keeps the sentinel. Otherwise the byte ranges addressed by
  the unique index list (\<open>elementSize\<close> bytes at \<open>pBase + index * stride\<close>) are
  concatenated in list order and the resulting byte stream is hashed; with no indices the
  full contiguous vertex range stands for the indices \<open>0 .. vertexCount - 1\<close>, where
  \<open>vertexCount\<close> is \<open>size / stride\<close>.
\<close>

definition vertexBytes :: "HashQuery \<Rightarrow> nat \<Rightarrow> byte list" where
  "vertexBytes query index =
     take (elementSize query) (drop (index * HashQuery.stride query) (case pBase query of None \<Rightarrow> [] | Some mem \<Rightarrow> mem))"

definition hashVertexRegionIndexed :: "hashing \<Rightarrow> HashQuery \<Rightarrow> nat list \<Rightarrow> XXH64_hash_t" where
  "hashVertexRegionIndexed H query uniqueIndices =
     (if size query = 0 then kEmptyHash H
      else hashContiguousMemory H
             (concat (map (vertexBytes query)
                (if uniqueIndices = [] then [0..<size query div HashQuery.stride query] else uniqueIndices))))"


subsection \<open>\<open>getVertexRegion\<close>\<close>

definition getVertexRegion :: "hashing \<Rightarrow> RasterBuffer \<Rightarrow> nat \<Rightarrow> HashQuery \<Rightarrow> fault + (bool \<times> HashQuery)" where
  "getVertexRegion H buffer vertexCount outResult =
     (if \<not> defined buffer then Inr (False, outResult)
      else
        let outResult' =
              \<lparr>pBase = mapPtr buffer (offsetFromSlice buffer),
               elementSize = imageFormatElementSize H (vertexFormat buffer),
               stride = stride buffer,
               size = stride buffer * vertexCount,
               ref = bufferPtr buffer\<rparr>
        in if ref outResult' = None then Inl AssertionFailed
           else Inr (True, outResult'))"

subsection \<open>Buffer lifetime calls\<close>

text \<open>
  The calls \<open>acquire(DxvkAccess::Read)\<close>, \<open>release(DxvkAccess::Read)\<close>, \<open>incRef()\<close> and
  \<open>decRef()\<close> on a buffer are recorded, in program order, as a trace.
\<close>

datatype event = Acquire nat | Release nat | IncRef nat | DecRef nat

subsection \<open>\<open>hashGeometryData\<close>\<close>

text \<open>The template argument \<open>T\<close>: \<open>uint16_t\<close>, \<open>uint32_t\<close> or \<open>NoIndices\<close>.\<close>

datatype IndexT = UInt16 | UInt32 | NoIndices

definition sizeofT :: "IndexT \<Rightarrow> nat" where
  "sizeofT T = (case T of UInt16 \<Rightarrow> 2 | UInt32 \<Rightarrow> 4 | NoIndices \<Rightarrow> 4)"

definition setEntry :: "GeometryHashes \<Rightarrow> HashComponents \<Rightarrow> XXH64_hash_t \<Rightarrow> GeometryHashes" where
  "setEntry hashes component h = hashes\<lparr>entries := (entries hashes)(component := h)\<rparr>"

text \<open>The bytes \<open>[p, p + n)\<close> that a hash primitive is asked to read.\<close>

definition readBytes :: "byte list option \<Rightarrow> nat \<Rightarrow> fault + byte list" where
  "readBytes p n =
     (case p of
        None \<Rightarrow> Inl NullDereference
      | Some mem \<Rightarrow> if n \<le> length mem then Inr (take n mem) else Inl OutOfBoundsAccess)"

text \<open>
  \<open>std::vector<T> uniqueIndices(0); deduplicateSortIndices(pIndexData, indexCount,
  maxIndexValue, uniqueIndices)\<close> at \<open>T = uint16_t\<close> and \<open>T = uint32_t\<close>; the unique
  indices are handed on as numbers.
\<close>

definition uniqueIndicesOf :: "IndexT \<Rightarrow> byte list option \<Rightarrow> nat \<Rightarrow> uint32_t \<Rightarrow> (fault + nat list) option" where
  "uniqueIndicesOf T pIndexData indexCount maxIndexValue =
     (case T of
        UInt16 \<Rightarrow> map_option (map_sum id (map unat))
                    (deduplicateSortIndices pIndexData indexCount maxIndexValue ([] :: 16 word list))
      | UInt32 \<Rightarrow> map_option (map_sum id (map unat))
                    (deduplicateSortIndices pIndexData indexCount maxIndexValue ([] :: 32 word list))
      | NoIndices \<Rightarrow> Some (Inr []))"

text \<open>The block guarded by \<open>if constexpr (!std::is_same<T, NoIndices>::value)\<close>.\<close>

definition indexRules ::
  "hashing \<Rightarrow> HashRule \<Rightarrow> IndexT \<Rightarrow> nat \<Rightarrow> uint32_t \<Rightarrow> byte list option \<Rightarrow> nat option
     \<Rightarrow> GeometryHashes \<Rightarrow> ((fault + (nat list \<times> GeometryHashes)) \<times> event list) option" where
  "indexRules H globalHashRule T indexCount maxIndexValue pIndexData indexBufferRef hashesOut =
     (if T = NoIndices then Some (Inr ([], hashesOut), [])
      else
        (case indexBufferRef of
           None \<Rightarrow> Some (Inl AssertionFailed, [])
         | Some b \<Rightarrow>
             if \<not> indexCount > 0 then Some (Inl AssertionFailed, [])
             else
               (case uniqueIndicesOf T pIndexData indexCount maxIndexValue of
                  None \<Rightarrow> None
                | Some (Inl f) \<Rightarrow> Some (Inl f, [])
                | Some (Inr uniqueIndices) \<Rightarrow>
                    (case readBytes pIndexData (indexCount * sizeofT T) of
                       Inl f \<Rightarrow> Some (Inl f, [])
                     | Inr indexBytes \<Rightarrow>
                         let hashes1 = (if test globalHashRule Indices
                                        then setEntry hashesOut Indices (hashContiguousMemory H indexBytes)
                                        else hashesOut);
                             hashes2 = (if test globalHashRule LegacyIndices
                                        then setEntry hashes1 LegacyIndices
                                               (hashIndicesLegacy H (sizeofT T) indexBytes)
                                        else hashes1)
                         in Some (Inr (uniqueIndices, hashes2), [Release b, DecRef b])))))"

text \<open>The loop over all components (\<open>// Do vertex based rules\<close>).\<close>

definition vertexRules ::
  "hashing \<Rightarrow> HashRule \<Rightarrow> (VertexRegionsType \<Rightarrow> HashQuery) \<Rightarrow> nat list \<Rightarrow> GeometryHashes \<Rightarrow> GeometryHashes" where
  "vertexRules H globalHashRule vertexRegions uniqueIndices hashesOut =
     fold (\<lambda>component hashes.
             case componentToRegionMap component of
               Some region \<Rightarrow>
                 if test globalHashRule component
                 then setEntry hashes component
                        (hashVertexRegionIndexed H (vertexRegions region) uniqueIndices)
                 else hashes
             | None \<Rightarrow> hashes)
          allComponents hashesOut"

definition legacyPositionRules ::
  "hashing \<Rightarrow> HashRule \<Rightarrow> (VertexRegionsType \<Rightarrow> HashQuery) \<Rightarrow> GeometryHashes \<Rightarrow> GeometryHashes" where
  "legacyPositionRules H globalHashRule vertexRegions hashesOut =
     (if test globalHashRule LegacyPositions0 \<or> test globalHashRule LegacyPositions1 then
        (let region = vertexRegions Position;
             (h0, h1) = hashRegionLegacy H (pBase region) (elementSize region) (HashQuery.stride region)
                          (size region) (entries hashesOut LegacyPositions0)
                          (entries hashesOut LegacyPositions1)
         in setEntry (setEntry hashesOut LegacyPositions0 h0) LegacyPositions1 h1)
      else hashesOut)"

text \<open>The final loop (\<open>// Release this memory back to the staging allocator\<close>).\<close>

definition releaseRegions :: "(VertexRegionsType \<Rightarrow> HashQuery) \<Rightarrow> event list" where
  "releaseRegions vertexRegions =
     concat (map (\<lambda>i. let region = vertexRegions i
                       in if size region = 0 then []
                          else (case ref region of
                                  Some r \<Rightarrow> [Release r, DecRef r]
                                | None \<Rightarrow> []))
                 [Position, Texcoord])"

definition hashGeometryData ::
  "hashing \<Rightarrow> HashRule \<Rightarrow> IndexT \<Rightarrow> nat \<Rightarrow> uint32_t \<Rightarrow> byte list option \<Rightarrow> nat option
     \<Rightarrow> (VertexRegionsType \<Rightarrow> HashQuery) \<Rightarrow> GeometryHashes
     \<Rightarrow> ((fault + GeometryHashes) \<times> event list) option" where
  "hashGeometryData H globalHashRule T indexCount maxIndexValue pIndexData indexBufferRef vertexRegions hashesOut =
     (case indexRules H globalHashRule T indexCount maxIndexValue pIndexData indexBufferRef hashesOut of
        None \<Rightarrow> None
      | Some (Inl f, released) \<Rightarrow> Some (Inl f, released)
      | Some (Inr (uniqueIndices, hashes1), released) \<Rightarrow>
          let hashes2 = vertexRules H globalHashRule vertexRegions uniqueIndices hashes1;
              hashes3 = legacyPositionRules H globalHashRule vertexRegions hashes2
          in Some (Inr hashes3, released @ releaseRegions vertexRegions))"

subsection \<open>\<open>D3D9Rtx::computeHash\<close>\<close>

text \<open>
  The state of the device that \<open>computeHash\<close> reads for the vertex shader hash:
  \<open>m_parent->UseProgrammableVS()\<close>, \<open>useVertexCapture()\<close>, the bytecode of the bound
  vertex shader, the memory of the three constant arrays of \<open>d3d9State().vsConsts\<close> and
  the three counts of \<open>m_parent->m_consts[DxsoProgramTypes::VertexShader].meta\<close>.
\<close>

record D3D9DeviceState =
  UseProgrammableVS :: bool
  useVertexCapture :: bool
  shaderByteCode :: "byte list"
  fConsts :: "byte list"
  iConsts :: "byte list"
  bConsts :: "byte list"
  maxConstIndexF :: nat
  maxConstIndexI :: nat
  maxConstIndexB :: nat

text \<open>
  \<open>// Assume the GPU changed the data via shaders, include the constant buffer data in hash\<close>.
  \<open>sizeof(float)\<close>, \<open>sizeof(int)\<close> and \<open>sizeof(uint32_t)\<close> are 4.
  The constant arrays are at least as long as the byte counts that are hashed.
\<close>

definition vertexShaderHashOf :: "hashing \<Rightarrow> HashRule \<Rightarrow> D3D9DeviceState \<Rightarrow> XXH64_hash_t" where
  "vertexShaderHashOf H rule dev =
     (if UseProgrammableVS dev \<and> useVertexCapture dev then
        (if test rule GeometryDescriptor then
           (let h1 = XXH3_64bits H (shaderByteCode dev);
                h2 = XXH3_64bits_withSeed H (take (maxConstIndexF dev * 4 * 4) (fConsts dev)) h1;
                h3 = XXH3_64bits_withSeed H (take (maxConstIndexI dev * 4 * 4) (iConsts dev)) h2
            in XXH3_64bits_withSeed H (take (maxConstIndexB dev * 4 div 32) (bConsts dev)) h3)
         else kEmptyHash H)
      else kEmptyHash H)"

definition geometryDescriptorHashOf :: "hashing \<Rightarrow> HashRule \<Rightarrow> RasterGeometry \<Rightarrow> XXH64_hash_t" where
  "geometryDescriptorHashOf H rule geoData =
     (if test rule GeometryDescriptor
      then hashGeometryDescriptor H (geoIndexCount geoData) (geoVertexCount geoData)
             (indexType (indexBuffer geoData)) (topology geoData)
      else kEmptyHash H)"

definition vertexLayoutHashOf :: "hashing \<Rightarrow> HashRule \<Rightarrow> RasterGeometry \<Rightarrow> XXH64_hash_t" where
  "vertexLayoutHashOf H rule geoData =
     (if test rule VertexLayout then hashVertexLayout H geoData else kEmptyHash H)"

text \<open>The values that the scheduled lambda captures.\<close>

record HashTask =
  taskVertexRegions :: "VertexRegionsType \<Rightarrow> HashQuery"
  taskIndexBufferRef :: "nat option"
  taskPIndexData :: "byte list option"
  taskIndexStride :: nat
  taskIndexDataSize :: nat
  taskIndexCount :: uint32_t
  taskMaxIndexValue :: uint32_t
  taskVertexShaderHash :: XXH64_hash_t
  taskGeometryDescriptorHash :: XXH64_hash_t
  taskVertexLayoutHash :: XXH64_hash_t

text \<open>
  A \<open>Future\<close> is default-constructed (invalid) or refers to a task handed to the worker
  pool. \<open>Schedule\<close> appends the closure to the queue of the pool and returns its handle;
  the pool runs every queued closure once, at a later time.
\<close>

datatype Future = InvalidFuture | PendingFuture nat

definition Schedule :: "'t \<Rightarrow> 't list \<Rightarrow> Future \<times> 't list" where
  "Schedule task workers = (PendingFuture (length workers), workers @ [task])"

text \<open>\<open>ref->acquire(DxvkAccess::Read); ref->incRef();\<close>\<close>

definition acquireAndIncRef :: "nat option \<Rightarrow> fault + event list" where
  "acquireAndIncRef r = (case r of None \<Rightarrow> Inl NullDereference | Some b \<Rightarrow> Inr [Acquire b, IncRef b])"

text \<open>
  The submission-thread part of \<open>computeHash\<close>: the result, the buffer calls made, and
  the queue of the geometry workers afterwards.
\<close>

definition computeHash ::
  "hashing \<Rightarrow> HashRule \<Rightarrow> D3D9DeviceState \<Rightarrow> RasterGeometry \<Rightarrow> uint32_t \<Rightarrow> HashTask list
     \<Rightarrow> (fault + Future) \<times> event list \<times> HashTask list" where
  "computeHash H rule dev geoData maxIndexValue workers =
     (let indexCount = geoIndexCount geoData;
          vertexCount = geoVertexCount geoData;
          vertexRegions = (\<lambda>_. zeroHashQuery)
      in case getVertexRegion H (positionBuffer geoData) (unat vertexCount) (vertexRegions Position) of
           Inl f \<Rightarrow> (Inl f, [], workers)
         | Inr (False, _) \<Rightarrow> (Inr InvalidFuture, [], workers)
         | Inr (True, position) \<Rightarrow>
       (case acquireAndIncRef (ref position) of
           Inl f \<Rightarrow> (Inl f, [], workers)
         | Inr acquired1 \<Rightarrow>
       (case getVertexRegion H (texcoordBuffer geoData) (unat vertexCount) (vertexRegions Texcoord) of
           Inl f \<Rightarrow> (Inl f, acquired1, workers)
         | Inr (hasTexcoord, texcoord) \<Rightarrow>
       (case (if hasTexcoord then acquireAndIncRef (ref texcoord) else Inr []) of
           Inl f \<Rightarrow> (Inl f, acquired1, workers)
         | Inr acquired2 \<Rightarrow>
             let vertexRegions' = vertexRegions(Position := position, Texcoord := texcoord);
                 indexBufferRef = bufferPtr (indexBuffer geoData);
                 acquired3 = (case indexBufferRef of
                                Some b \<Rightarrow> [Acquire b, IncRef b]
                              | None \<Rightarrow> []);
                 pIndexData = (if defined (indexBuffer geoData)
                               then mapPtr (indexBuffer geoData) 0 else None);
                 indexStride = stride (indexBuffer geoData);
                 indexDataSize = unat indexCount * indexStride;
                 task = \<lparr>taskVertexRegions = vertexRegions',
                         taskIndexBufferRef = indexBufferRef,
                         taskPIndexData = pIndexData,
                         taskIndexStride = indexStride,
                         taskIndexDataSize = indexDataSize,
                         taskIndexCount = indexCount,
                         taskMaxIndexValue = maxIndexValue,
                         taskVertexShaderHash = vertexShaderHashOf H rule dev,
                         taskGeometryDescriptorHash = geometryDescriptorHashOf H rule geoData,
                         taskVertexLayoutHash = vertexLayoutHashOf H rule geoData\<rparr>;
                 (future, workers') = Schedule task workers
             in (Inr future, acquired1 @ acquired2 @ acquired3, workers')))))"

text \<open>
  The body of the scheduled lambda: what it returns (or the fault that stops it) and the
  buffer calls it makes. \<open>None\<close> stands for a run that does not return.
\<close>

definition hashTaskBody ::
  "hashing \<Rightarrow> HashRule \<Rightarrow> HashTask \<Rightarrow> ((fault + GeometryHashes) \<times> event list) option" where
  "hashTaskBody H rule task =
     (let hashes0 = emptyGeometryHashes H;
          hashes1 = setEntry hashes0 GeometryDescriptor (taskGeometryDescriptorHash task);
          hashes2 = setEntry hashes1 VertexLayout (taskVertexLayoutHash task);
          hashes3 = setEntry hashes2 VertexShader (taskVertexShaderHash task);
          T = (if taskIndexStride task = 2 then UInt16
               else if taskIndexStride task = 4 then UInt32
               else NoIndices)
      in case hashGeometryData H rule T (unat (taskIndexCount task)) (taskMaxIndexValue task)
                (taskPIndexData task) (taskIndexBufferRef task) (taskVertexRegions task) hashes3 of
           None \<Rightarrow> None
         | Some (Inl f, released) \<Rightarrow> Some (Inl f, released)
         | Some (Inr hashes, released) \<Rightarrow>
             if \<not> entries hashes VertexPosition \<noteq> kEmptyHash H
             then Some (Inl AssertionFailed, released)
             else Some (Inr (hashes\<lparr>precombined := precombine H rule (entries hashes)\<rparr>), released))"

subsection \<open>\<open>D3D9Rtx::computeAxisAlignedBoundingBox\<close>\<close>

text \<open>
  A \<open>float\<close> is its IEEE-754 binary32 bit pattern. Only comparison is needed: for two
  numbers (not NaN) the order of the values is the order of \<open>floatOrder\<close>, the magnitude
  bits read as an integer and negated when the sign bit is set; \<open>+0\<close> and \<open>-0\<close> compare
  equal; every comparison with a NaN is false.
\<close>

type_synonym float = "32 word"

definition FLT_MAX :: float where
  "FLT_MAX = 0x7F7FFFFF"

text \<open>Unary minus flips the sign bit.\<close>

definition fneg :: "float \<Rightarrow> float" where
  "fneg a = a XOR 0x80000000"

definition isNaN :: "float \<Rightarrow> bool" where
  "isNaN a = (0x7F800000 < (a AND 0x7FFFFFFF))"

definition floatOrder :: "float \<Rightarrow> int" where
  "floatOrder a = (if bit a 31 then - uint (a AND 0x7FFFFFFF) else uint (a AND 0x7FFFFFFF))"

definition float_less :: "float \<Rightarrow> float \<Rightarrow> bool" where
  "float_less a b = (\<not> isNaN a \<and> \<not> isNaN b \<and> floatOrder a < floatOrder b)"

text \<open>
  One lane of the SSE instructions behind \<open>_mm_min_ps\<close> and \<open>_mm_max_ps\<close>:
  \<open>a < b ? a : b\<close> and \<open>a > b ? a : b\<close>, so the second operand is returned when either
  operand is a NaN and when both are zero.
\<close>

definition min_lane :: "float \<Rightarrow> float \<Rightarrow> float" where
  "min_lane a b = (if float_less a b then a else b)"

definition max_lane :: "float \<Rightarrow> float \<Rightarrow> float" where
  "max_lane a b = (if float_less b a then a else b)"

text \<open>\<open>__m128\<close> with its lanes \<open>m128_f32[0]\<close> to \<open>m128_f32[3]\<close>.\<close>

datatype m128 = M128 float float float float

definition mm_set_ps1 :: "float \<Rightarrow> m128" where
  "mm_set_ps1 a = M128 a a a a"

definition mm_set_ps :: "float \<Rightarrow> float \<Rightarrow> float \<Rightarrow> float \<Rightarrow> m128" where
  "mm_set_ps e3 e2 e1 e0 = M128 e0 e1 e2 e3"

fun mm_min_ps :: "m128 \<Rightarrow> m128 \<Rightarrow> m128" where
  "mm_min_ps (M128 a0 a1 a2 a3) (M128 b0 b1 b2 b3) =
     M128 (min_lane a0 b0) (min_lane a1 b1) (min_lane a2 b2) (min_lane a3 b3)"

fun mm_max_ps :: "m128 \<Rightarrow> m128 \<Rightarrow> m128" where
  "mm_max_ps (M128 a0 a1 a2 a3) (M128 b0 b1 b2 b3) =
     M128 (max_lane a0 b0) (max_lane a1 b1) (max_lane a2 b2) (max_lane a3 b3)"

text \<open>\<open>Vector3\<close> (three consecutive floats \<open>x\<close>, \<open>y\<close>, \<open>z\<close>) and the box \<open>{min, max}\<close>.\<close>

datatype Vector3 = Vector3 float float float

datatype AxisAlignedBoundingBox = AxisAlignedBoundingBox Vector3 Vector3

text \<open>\<open>reinterpret_cast<const Vector3*>(pVertex)\<close>, read at byte offset \<open>pVertex\<close> of the mapping.\<close>

definition readVector3 :: "byte list \<Rightarrow> nat \<Rightarrow> fault + Vector3" where
  "readVector3 mem pVertex =
     (if pVertex + 12 \<le> length mem
      then Inr (Vector3 (loadLE (take 4 (drop pVertex mem)))
                        (loadLE (take 4 (drop (pVertex + 4) mem)))
                        (loadLE (take 4 (drop (pVertex + 8) mem))))
      else Inl OutOfBoundsAccess)"

function aabbLoop ::
  "byte list \<Rightarrow> uint32_t \<Rightarrow> nat \<Rightarrow> uint32_t \<Rightarrow> nat \<Rightarrow> m128 \<Rightarrow> m128 \<Rightarrow> fault + (m128 \<times> m128)" where
  "aabbLoop mem vertexCount vertexStride vertexIdx pVertex minPos maxPos =
     (if vertexIdx < vertexCount then
        (case readVector3 mem pVertex of
           Inl f \<Rightarrow> Inl f
         | Inr (Vector3 x y z) \<Rightarrow>
             let vertexPos = mm_set_ps 0 z y x
             in aabbLoop mem vertexCount vertexStride (vertexIdx + 1) (pVertex + vertexStride)
                  (mm_min_ps minPos vertexPos) (mm_max_ps maxPos vertexPos))
      else Inr (minPos, maxPos))"
  by pat_completeness auto
termination
proof (relation "measure (\<lambda>(mem, vertexCount, vertexStride, vertexIdx, pVertex, minPos, maxPos).
                            unat vertexCount - unat vertexIdx)")
  show "wf (measure (\<lambda>(mem :: byte list, vertexCount :: uint32_t, vertexStride :: nat,
                         vertexIdx :: uint32_t, pVertex :: nat, minPos :: m128, maxPos :: m128).
                       unat vertexCount - unat vertexIdx))"
    by simp
next
  fix mem :: "byte list" and vertexCount vertexIdx :: uint32_t and vertexStride pVertex :: nat
    and minPos maxPos vertexPos :: m128 and x y z :: float
  assume "vertexIdx < vertexCount"
  then have "unat (vertexIdx + 1) = unat vertexIdx + 1" "unat vertexIdx < unat vertexCount"
    by unat_arith+
  then show "((mem, vertexCount, vertexStride, vertexIdx + 1, pVertex + vertexStride,
               mm_min_ps minPos vertexPos, mm_max_ps maxPos vertexPos),
              (mem, vertexCount, vertexStride, vertexIdx, pVertex, minPos, maxPos))
             \<in> measure (\<lambda>(mem, vertexCount, vertexStride, vertexIdx, pVertex, minPos, maxPos).
                            unat vertexCount - unat vertexIdx)"
    by simp
qed

declare aabbLoop.simps [simp del]

text \<open>The values that the scheduled lambda captures.\<close>

record AabbTask =
  aabbPVertexData :: "byte list"
  aabbVertexCount :: uint32_t
  aabbVertexStride :: nat
  aabbVertexBuffer :: nat

text \<open>
  The submission-thread part; \<open>needsMeshBoundingBox\<close> is the value of
  \<open>RtxOptions::needsMeshBoundingBox()\<close>.
\<close>

definition computeAxisAlignedBoundingBox ::
  "bool \<Rightarrow> RasterGeometry \<Rightarrow> AabbTask list \<Rightarrow> (fault + Future) \<times> event list \<times> AabbTask list" where
  "computeAxisAlignedBoundingBox needsMeshBoundingBox geoData workers =
     (if \<not> needsMeshBoundingBox then (Inr InvalidFuture, [], workers)
      else
        (case mapPtr (positionBuffer geoData) (offsetFromSlice (positionBuffer geoData)) of
           None \<Rightarrow> (Inr InvalidFuture, [], workers)
         | Some pVertexData \<Rightarrow>
             (case bufferPtr (positionBuffer geoData) of
                None \<Rightarrow> (Inl NullDereference, [], workers)
              | Some vertexBuffer \<Rightarrow>
                  let (future, workers') =
                        Schedule \<lparr>aabbPVertexData = pVertexData,
                                  aabbVertexCount = geoVertexCount geoData,
                                  aabbVertexStride = stride (positionBuffer geoData),
                                  aabbVertexBuffer = vertexBuffer\<rparr> workers
                  in (Inr future, [IncRef vertexBuffer], workers'))))"

text \<open>The body of the scheduled lambda.\<close>

definition aabbTaskBody :: "AabbTask \<Rightarrow> (fault + AxisAlignedBoundingBox) \<times> event list" where
  "aabbTaskBody task =
     (case aabbLoop (aabbPVertexData task) (aabbVertexCount task) (aabbVertexStride task) 0 0
             (mm_set_ps1 FLT_MAX) (mm_set_ps1 (fneg FLT_MAX)) of
        Inl f \<Rightarrow> (Inl f, [])
      | Inr (M128 min0 min1 min2 min3, M128 max0 max1 max2 max3) \<Rightarrow>
          (Inr (AxisAlignedBoundingBox (Vector3 min0 min1 min2) (Vector3 max0 max1 max2)),
           [DecRef (aabbVertexBuffer task)]))"

subsection \<open>Views used to state properties\<close>

text \<open>The \<open>k\<close>-th element of the index buffer, read at the type \<open>T\<close>, as a number.\<close>

definition indexValue :: "IndexT \<Rightarrow> byte list option \<Rightarrow> nat \<Rightarrow> fault + nat" where
  "indexValue T pIndexData k =
     (case T of
        UInt16 \<Rightarrow> map_sum id unat (readIndex pIndexData k :: fault + 16 word)
      | UInt32 \<Rightarrow> map_sum id unat (readIndex pIndexData k :: fault + 32 word)
      | NoIndices \<Rightarrow> Inl NullDereference)"

text \<open>
  The vertex content of a result: the entries computed from the vertex regions, or the
  fault that stopped the run.
\<close>

definition vertexContent :: "fault + GeometryHashes \<Rightarrow> fault + XXH64_hash_t list" where
  "vertexContent r =
     map_sum id (\<lambda>hashes. map (entries hashes)
                   [VertexPosition, VertexTexcoord, LegacyPositions0, LegacyPositions1]) r"

text \<open>
  Two regions, and two closure states, with the same content: they differ at most in the
  identities of the buffers they refer to.
\<close>

definition sameRegionContent :: "HashQuery \<Rightarrow> HashQuery \<Rightarrow> bool" where
  "sameRegionContent q q' =
     (pBase q = pBase q' \<and> elementSize q = elementSize q' \<and>
      HashQuery.stride q = HashQuery.stride q' \<and> size q = size q')"

definition sameTaskContent :: "HashTask \<Rightarrow> HashTask \<Rightarrow> bool" where
  "sameTaskContent t t' =
     ((\<forall>r. sameRegionContent (taskVertexRegions t r) (taskVertexRegions t' r)) \<and>
      (taskIndexBufferRef t = None) = (taskIndexBufferRef t' = None) \<and>
      taskPIndexData t = taskPIndexData t' \<and> taskIndexStride t = taskIndexStride t' \<and>
      taskIndexCount t = taskIndexCount t' \<and> taskMaxIndexValue t = taskMaxIndexValue t' \<and>
      taskVertexShaderHash t = taskVertexShaderHash t' \<and>
      taskGeometryDescriptorHash t = taskGeometryDescriptorHash t' \<and>
      taskVertexLayoutHash t = taskVertexLayoutHash t')"

text \<open>
  The region that \<open>getVertexRegion\<close> leaves for a buffer, and the closure state that
  \<open>computeHash\<close> schedules, written out.
\<close>

definition regionOf :: "hashing \<Rightarrow> RasterBuffer \<Rightarrow> nat \<Rightarrow> HashQuery" where
  "regionOf H buffer n =
     (if defined buffer then
        \<lparr>pBase = mapPtr buffer (offsetFromSlice buffer),
         elementSize = imageFormatElementSize H (vertexFormat buffer),
         stride = stride buffer, size = stride buffer * n, ref = bufferPtr buffer\<rparr>
      else zeroHashQuery)"

definition taskOf :: "hashing \<Rightarrow> HashRule \<Rightarrow> D3D9DeviceState \<Rightarrow> RasterGeometry \<Rightarrow> uint32_t \<Rightarrow> HashTask" where
  "taskOf H rule dev geoData maxIndexValue =
     \<lparr>taskVertexRegions = (\<lambda>_. zeroHashQuery)
         (Position := regionOf H (positionBuffer geoData) (unat (geoVertexCount geoData)),
          Texcoord := regionOf H (texcoordBuffer geoData) (unat (geoVertexCount geoData))),
      taskIndexBufferRef = bufferPtr (indexBuffer geoData),
      taskPIndexData = (if defined (indexBuffer geoData) then mapPtr (indexBuffer geoData) 0 else None),
      taskIndexStride = stride (indexBuffer geoData),
      taskIndexDataSize = unat (geoIndexCount geoData) * stride (indexBuffer geoData),
      taskIndexCount = geoIndexCount geoData,
      taskMaxIndexValue = maxIndexValue,
      taskVertexShaderHash = vertexShaderHashOf H rule dev,
      taskGeometryDescriptorHash = geometryDescriptorHashOf H rule geoData,
      taskVertexLayoutHash = vertexLayoutHashOf H rule geoData\<rparr>"

text \<open>The hashes that the closure holds when it reaches its final assertion.\<close>

definition hashesBeforeAssert ::
  "hashing \<Rightarrow> HashRule \<Rightarrow> HashTask \<Rightarrow> ((fault + GeometryHashes) \<times> event list) option" where
  "hashesBeforeAssert H rule task =
     hashGeometryData H rule
       (if taskIndexStride task = 2 then UInt16 else if taskIndexStride task = 4 then UInt32 else NoIndices)
       (unat (taskIndexCount task)) (taskMaxIndexValue task) (taskPIndexData task)
       (taskIndexBufferRef task) (taskVertexRegions task)
       (setEntry (setEntry (setEntry (emptyGeometryHashes H)
          GeometryDescriptor (taskGeometryDescriptorHash task))
          VertexLayout (taskVertexLayoutHash task))
          VertexShader (taskVertexShaderHash task))"

text \<open>
  A finite float (neither a NaN nor an infinity), and the least and the greatest of the
  values \<open>f 0, ..., f (n - 1)\<close> in the order of floats.
\<close>

definition isFinite :: "float \<Rightarrow> bool" where
  "isFinite a = ((a AND 0x7FFFFFFF) \<le> 0x7F7FFFFF)"

definition isMinimumOf :: "float \<Rightarrow> (nat \<Rightarrow> float) \<Rightarrow> nat \<Rightarrow> bool" where
  "isMinimumOf m f n = ((\<exists>k<n. m = f k) \<and> (\<forall>k<n. floatOrder m \<le> floatOrder (f k)))"

definition isMaximumOf :: "float \<Rightarrow> (nat \<Rightarrow> float) \<Rightarrow> nat \<Rightarrow> bool" where
  "isMaximumOf m f n = ((\<exists>k<n. m = f k) \<and> (\<forall>k<n. floatOrder (f k) \<le> floatOrder m))"

text \<open>
  What the \<open>Future\<close> returned by \<open>computeHash\<close> delivers once the worker has run the
  closure: nothing for an invalid \<open>Future\<close>, otherwise the hashes, or the fault that
  stopped the submission or the closure. \<open>None\<close> stands for a closure that does not return.
\<close>

definition deliveredHashes ::
  "hashing \<Rightarrow> HashRule \<Rightarrow> D3D9DeviceState \<Rightarrow> RasterGeometry \<Rightarrow> uint32_t \<Rightarrow> HashTask list
     \<Rightarrow> (fault + GeometryHashes option) option" where
  "deliveredHashes H rule dev geoData maxIndexValue workers =
     (case computeHash H rule dev geoData maxIndexValue workers of
        (Inl f, _, _) \<Rightarrow> Some (Inl f)
      | (Inr InvalidFuture, _, _) \<Rightarrow> Some (Inr None)
      | (Inr (PendingFuture i), _, workers') \<Rightarrow>
          (case hashTaskBody H rule (workers' ! i) of
             None \<Rightarrow> None
           | Some (Inl f, _) \<Rightarrow> Some (Inl f)
           | Some (Inr hashes, _) \<Rightarrow> Some (Inr (Some hashes))))"

text \<open>
  Two buffers with the same content: the same flags, format, stride and index type, the
  same mapped bytes at the offset that is read, and both with or both without a
  \<open>DxvkBuffer\<close> behind them (whose identity may differ).
\<close>

definition sameBufferContent :: "nat \<Rightarrow> nat \<Rightarrow> RasterBuffer \<Rightarrow> RasterBuffer \<Rightarrow> bool" where
  "sameBufferContent offset offset' buffer buffer' =
     (defined buffer = defined buffer' \<and>
      mapPtr buffer offset = mapPtr buffer' offset' \<and>
      vertexFormat buffer = vertexFormat buffer' \<and>
      stride buffer = stride buffer' \<and>
      indexType buffer = indexType buffer' \<and>
      (bufferPtr buffer = None) = (bufferPtr buffer' = None))"

definition sameGeometryContent :: "RasterGeometry \<Rightarrow> RasterGeometry \<Rightarrow> bool" where
  "sameGeometryContent geoData geoData' =
     (geoIndexCount geoData = geoIndexCount geoData' \<and>
      geoVertexCount geoData = geoVertexCount geoData' \<and>
      topology geoData = topology geoData' \<and>
      sameBufferContent (offsetFromSlice (positionBuffer geoData)) (offsetFromSlice (positionBuffer geoData'))
        (positionBuffer geoData) (positionBuffer geoData') \<and>
      sameBufferContent (offsetFromSlice (texcoordBuffer geoData)) (offsetFromSlice (texcoordBuffer geoData'))
        (texcoordBuffer geoData) (texcoordBuffer geoData') \<and>
      sameBufferContent 0 0 (indexBuffer geoData) (indexBuffer geoData'))"

subsection \<open>Counting buffer calls\<close>

fun isAcquire :: "event \<Rightarrow> bool" where
  "isAcquire (Acquire _) = True"
| "isAcquire _ = False"

fun isRelease :: "event \<Rightarrow> bool" where
  "isRelease (Release _) = True"
| "isRelease _ = False"

fun isIncRef :: "event \<Rightarrow> bool" where
  "isIncRef (IncRef _) = True"
| "isIncRef _ = False"

fun isDecRef :: "event \<Rightarrow> bool" where
  "isDecRef (DecRef _) = True"
| "isDecRef _ = False"

definition calls :: "(event \<Rightarrow> bool) \<Rightarrow> event list \<Rightarrow> nat" where
  "calls kind trace = length (filter kind trace)"

subsection \<open>Sample inputs\<close>

text \<open>
  An instance of the hash primitives and a few geometries, for evaluating the functions
  above on concrete inputs. The instance is a simple multiplicative byte hash; it stands
  for no property of xxHash.
\<close>

definition sampleHash :: "byte list \<Rightarrow> XXH64_hash_t \<Rightarrow> XXH64_hash_t" where
  "sampleHash bs seed = fold (\<lambda>b h. h * 31 + ucast b + 1) bs (seed + 7)"

definition sampleHashing :: hashing where
  "sampleHashing =
     \<lparr>kEmptyHash = 0,
      XXH3_64bits = (\<lambda>bs. sampleHash bs 0),
      XXH3_64bits_withSeed = sampleHash,
      hashContiguousMemory = (\<lambda>bs. sampleHash bs 0),
      hashIndicesLegacy = (\<lambda>sz bs. sampleHash bs (of_nat sz)),
      hashRegionLegacy = (\<lambda>p es st sz h0 h1.
         (sampleHash (case p of None \<Rightarrow> [] | Some mem \<Rightarrow> take sz mem) h0,
          sampleHash (case p of None \<Rightarrow> [] | Some mem \<Rightarrow> take es mem) h1)),
      hashGeometryDescriptor = (\<lambda>ic vc it tp. sampleHash [] (ucast ic + 3 * ucast vc + 5 * of_nat it + 7 * of_nat tp)),
      hashVertexLayout = (\<lambda>geoData. sampleHash [] (of_nat (stride (positionBuffer geoData)))),
      imageFormatElementSize = (\<lambda>_. 12),
      precombine = (\<lambda>rule e. fold (\<lambda>c h. if c \<in> rule then h * 31 + e c else h) allComponents 0)\<rparr>"

definition undefinedBuffer :: RasterBuffer where
  "undefinedBuffer =
     \<lparr>defined = False, mapPtr = (\<lambda>_. None), offsetFromSlice = 0, vertexFormat = 0,
      stride = 0, bufferPtr = None, indexType = 0\<rparr>"

text \<open>A mapped buffer with identity \<open>b\<close>, the given stride and the given content.\<close>

definition mappedBuffer :: "nat \<Rightarrow> nat \<Rightarrow> byte list \<Rightarrow> RasterBuffer" where
  "mappedBuffer b st mem =
     \<lparr>defined = True, mapPtr = (\<lambda>offset. Some (drop offset mem)), offsetFromSlice = 0,
      vertexFormat = 0, stride = st, bufferPtr = Some b, indexType = 0\<rparr>"

definition sampleDevice :: D3D9DeviceState where
  "sampleDevice =
     \<lparr>UseProgrammableVS = True, useVertexCapture = True, shaderByteCode = [1, 2, 3],
      fConsts = replicate 16 0, iConsts = replicate 16 0, bConsts = replicate 8 0,
      maxConstIndexF = 1, maxConstIndexI = 1, maxConstIndexB = 16\<rparr>"

text \<open>Three vertices of 12 bytes each.\<close>

definition sampleVertices :: "byte list" where
  "sampleVertices = map of_nat [1..<37]"

text \<open>A non-indexed draw of the three vertices, without texture coordinates.\<close>

definition sampleGeometry :: RasterGeometry where
  "sampleGeometry =
     \<lparr>geoIndexCount = 0, geoVertexCount = 3,
      positionBuffer = mappedBuffer 1 12 sampleVertices,
      texcoordBuffer = undefinedBuffer,
      indexBuffer = undefinedBuffer,
      topology = 3\<rparr>"

text \<open>The same draw with a texture coordinate stream of stride 0 bound.\<close>

definition zeroStrideTexcoordGeometry :: RasterGeometry where
  "zeroStrideTexcoordGeometry = sampleGeometry\<lparr>texcoordBuffer := mappedBuffer 2 0 sampleVertices\<rparr>"

text \<open>The same draw without a position stream.\<close>

definition noPositionGeometry :: RasterGeometry where
  "noPositionGeometry = sampleGeometry\<lparr>positionBuffer := undefinedBuffer\<rparr>"

text \<open>The vertex regions of \<open>sampleGeometry\<close>.\<close>

definition sampleRegions :: "VertexRegionsType \<Rightarrow> HashQuery" where
  "sampleRegions =
     (\<lambda>_. zeroHashQuery)
       (Position := \<lparr>pBase = Some sampleVertices, elementSize = 12, stride = 12, size = 36,
                      ref = Some 1\<rparr>)"

text \<open>The \<open>uint16_t\<close> index buffers \<open>[0, 1, 2]\<close> and \<open>[2, 1, 0]\<close>.\<close>

definition triangleIndices :: "byte list option" where
  "triangleIndices = Some [0, 0, 1, 0, 2, 0]"

definition reversedTriangleIndices :: "byte list option" where
  "reversedTriangleIndices = Some [2, 0, 1, 0, 0, 0]"

text \<open>
  The closure state of the non-indexed \<open>sampleGeometry\<close>, and of the same vertices drawn
  with the index buffer \<open>[0, 1, 2]\<close>.
\<close>

definition sampleTask :: HashTask where
  "sampleTask =
     \<lparr>taskVertexRegions = sampleRegions, taskIndexBufferRef = None, taskPIndexData = None,
      taskIndexStride = 0, taskIndexDataSize = 0, taskIndexCount = 0, taskMaxIndexValue = 2,
      taskVertexShaderHash = 0, taskGeometryDescriptorHash = 0, taskVertexLayoutHash = 0\<rparr>"

definition sampleIndexedTask :: HashTask where
  "sampleIndexedTask =
     sampleTask\<lparr>taskIndexBufferRef := Some 3, taskPIndexData := triangleIndices,
                taskIndexStride := 2, taskIndexDataSize := 6, taskIndexCount := 3\<rparr>"

text \<open>The draw of \<open>sampleGeometry\<close> with no vertices.\<close>

definition emptyDrawGeometry :: RasterGeometry where
  "emptyDrawGeometry = sampleGeometry\<lparr>geoVertexCount := 0\<rparr>"

text \<open>
  Two vertices \<open>(1, 1, -1)\<close> and \<open>(2, 0, -2)\<close>, and one vertex \<open>(+infinity, 1, -1)\<close>, as
  little-endian binary32.
\<close>

definition twoVertices :: "byte list" where
  "twoVertices = [0, 0, 0x80, 0x3F, 0, 0, 0x80, 0x3F, 0, 0, 0x80, 0xBF,
                  0, 0, 0, 0x40, 0, 0, 0, 0, 0, 0, 0, 0xC0]"

definition infiniteVertex :: "byte list" where
  "infiniteVertex = [0, 0, 0x80, 0x7F, 0, 0, 0x80, 0x3F, 0, 0, 0x80, 0xBF]"

definition twoVertexGeometry :: RasterGeometry where
  "twoVertexGeometry =
     sampleGeometry\<lparr>geoVertexCount := 2, positionBuffer := mappedBuffer 1 12 twoVertices\<rparr>"

text \<open>
  \<open>sampleGeometry\<close> behind another position buffer object with the same content, and
  \<open>sampleDevice\<close> with another vertex shader bound.
\<close>

definition otherBufferGeometry :: RasterGeometry where
  "otherBufferGeometry = sampleGeometry\<lparr>positionBuffer := mappedBuffer 7 12 sampleVertices\<rparr>"

definition otherShaderDevice :: D3D9DeviceState where
  "otherShaderDevice = sampleDevice\<lparr>shaderByteCode := [9]\<rparr>"

section \<open>Properties\<close>

subsection \<open>Index deduplication\<close>

lemma markBins_total:
  fixes out :: "'a::len word list" and rd :: "nat \<Rightarrow> 'a word"
  assumes n: "indexCount < 2 ^ 32"
    and rd: "\<forall>k<indexCount. readIndex p k = Inr (rd k) \<and> unat (rd k) \<le> unat m \<and> unat (rd k) < length out"
    and i: "unat i \<le> indexCount"
  shows "\<exists>out'. markBins p indexCount m i out = Some (Inr out') \<and> length out' = length out \<and>
           (\<forall>j<length out. out' ! j = (if \<exists>k. unat i \<le> k \<and> k < indexCount \<and> unat (rd k) = j then 1 else out ! j))"
  using rd i
proof (induction "indexCount - unat i" arbitrary: i out)
  case 0
  then have "\<not> unat i < indexCount" by simp
  then show ?case by (subst markBins.simps) auto
next
  case (Suc d)
  then have lt: "unat i < indexCount" by simp
  with n have "unat i + 1 < 2 ^ 32" by simp
  then have suc: "unat (i + 1) = unat i + 1"
    using unat_add_lem[of i 1] by simp
  let ?w = "rd (unat i)"
  let ?out1 = "out[unat ?w := 1]"
  from Suc.prems lt have r: "readIndex p (unat i) = Inr ?w" "unat ?w \<le> unat m" "unat ?w < length out"
    by auto
  have d: "d = indexCount - unat (i + 1)" using Suc.hyps(2) suc by simp
  have pre: "\<forall>k<indexCount. readIndex p k = Inr (rd k) \<and> unat (rd k) \<le> unat m \<and> unat (rd k) < length ?out1"
    using Suc.prems(1) by simp
  have "unat (i + 1) \<le> indexCount" using lt suc by simp
  from Suc.hyps(1)[OF d pre this] obtain out' where
    o: "markBins p indexCount m (i + 1) ?out1 = Some (Inr out')" "length out' = length ?out1"
       "\<forall>j<length ?out1. out' ! j = (if \<exists>k. unat (i + 1) \<le> k \<and> k < indexCount \<and> unat (rd k) = j then 1 else ?out1 ! j)"
    by blast
  have step: "markBins p indexCount m i out = markBins p indexCount m (i + 1) ?out1"
    by (subst markBins.simps) (use lt r in simp)
  have "\<forall>j<length out. out' ! j = (if \<exists>k. unat i \<le> k \<and> k < indexCount \<and> unat (rd k) = j then 1 else out ! j)"
  proof (intro allI impI)
    fix j assume j: "j < length out"
    let ?A = "\<exists>k. unat (i + 1) \<le> k \<and> k < indexCount \<and> unat (rd k) = j"
    let ?B = "\<exists>k. unat i \<le> k \<and> k < indexCount \<and> unat (rd k) = j"
    have e: "out' ! j = (if ?A then 1 else ?out1 ! j)" using o(3) j by simp
    have AB: "?B \<longleftrightarrow> ?A \<or> unat ?w = j"
    proof
      assume ?B
      then obtain k where k: "unat i \<le> k" "k < indexCount" "unat (rd k) = j" by blast
      show "?A \<or> unat ?w = j"
      proof (cases "k = unat i")
        case True with k show ?thesis by simp
      next
        case False
        with k suc have "unat (i + 1) \<le> k" by simp
        with k show ?thesis by blast
      qed
    next
      assume "?A \<or> unat ?w = j"
      then show ?B
      proof
        assume ?A
        then obtain k where "unat (i + 1) \<le> k" "k < indexCount" "unat (rd k) = j" by blast
        then have "unat i \<le> k \<and> k < indexCount \<and> unat (rd k) = j" using suc by simp
        then show ?B by blast
      next
        assume "unat ?w = j"
        with lt have "unat i \<le> unat i \<and> unat i < indexCount \<and> unat (rd (unat i)) = j" by simp
        then show ?B by blast
      qed
    qed
    have u: "?out1 ! j = (if unat ?w = j then 1 else out ! j)" using j by simp
    show "out' ! j = (if ?B then 1 else out ! j)"
    proof (cases ?A)
      case True
      then have ?B using AB by blast
      from e True have "out' ! j = 1" by (simp only: if_True)
      with \<open>?B\<close> show ?thesis by (simp only: if_True)
    next
      case False
      with e have e': "out' ! j = ?out1 ! j" by (simp only: if_False)
      show ?thesis
      proof (cases "unat ?w = j")
        case True
        then have ?B using AB by blast
        from e' u True have "out' ! j = 1" by simp
        with \<open>?B\<close> show ?thesis by (simp only: if_True)
      next
        case F2: False
        with False AB have nB: "\<not> ?B" by blast
        from e' u F2 have "out' ! j = out ! j" by simp
        with nB show ?thesis by (simp only: if_False)
      qed
    qed
  qed
  with o step show ?case by simp
qed

lemma compactBins_spec:
  fixes out :: "'a::len word list"
  assumes "length out = unat R" "unat c \<le> unat i" "unat i \<le> unat R"
  shows "\<exists>c' out'. compactBins R i c out = Inr (c', out') \<and> length out' = length out \<and>
           unat c' = unat c + length (filter (\<lambda>j. out ! j \<noteq> 0) [unat i..<unat R]) \<and>
           take (unat c') out' = take (unat c) out @ map of_nat (filter (\<lambda>j. out ! j \<noteq> 0) [unat i..<unat R])"
  using assms
proof (induction R i c out rule: compactBins.induct)
  case (1 R i c out)
  show ?case
  proof (cases "i < R")
    case False
    then have "unat i = unat R" using "1.prems"(3) by (simp add: word_less_nat_alt)
    with False show ?thesis by (subst compactBins.simps) simp
  next
    case True
    then have suc: "unat (i + 1) = unat i + 1" and lt: "unat i < unat R" by unat_arith+
    have inb: "unat i < length out" using lt "1.prems"(1) by simp
    have cb: "unat c < length out" using "1.prems"(2) inb by simp
    have upt: "[unat i..<unat R] = unat i # [unat (i + 1)..<unat R]"
      using lt suc by (simp add: upt_conv_Cons)
    show ?thesis
    proof (cases "out ! unat i \<noteq> 0")
      case nz: True
      let ?out1 = "out[unat c := ucast i]"
      have "unat c + 1 < 2 ^ 32" using "1.prems"(2) lt unsigned_less[of R, where 'a=nat] by simp
      then have csuc: "unat (c + 1) = unat c + 1" using unat_add_lem[of c 1] by simp
      have step: "compactBins R i c out = compactBins R (i + 1) (c + 1) ?out1"
        by (subst compactBins.simps) (use True inb cb nz in simp)
      have p1: "length ?out1 = unat R" using "1.prems"(1) by simp
      have p2: "unat (c + 1) \<le> unat (i + 1)" using "1.prems"(2) suc csuc by simp
      have p3: "unat (i + 1) \<le> unat R" using lt suc by simp
      have nb: "\<not> \<not> unat i < length out" using inb by simp
      have ncb: "\<not> \<not> unat c < length out" using cb by simp
      from "1.IH"(1)[OF True nb nz ncb p1 p2 p3] obtain c' out' where
        r: "compactBins R (i + 1) (c + 1) ?out1 = Inr (c', out')" "length out' = length ?out1"
           "unat c' = unat (c + 1) + length (filter (\<lambda>j. ?out1 ! j \<noteq> 0) [unat (i + 1)..<unat R])"
           "take (unat c') out' = take (unat (c + 1)) ?out1 @ map of_nat (filter (\<lambda>j. ?out1 ! j \<noteq> 0) [unat (i + 1)..<unat R])"
        by blast
      have same: "filter (\<lambda>j. ?out1 ! j \<noteq> 0) [unat (i + 1)..<unat R] = filter (\<lambda>j. out ! j \<noteq> 0) [unat (i + 1)..<unat R]"
        by (rule filter_cong) (use "1.prems"(2) suc in auto)
      have "take (Suc (unat c)) ?out1 = take (unat c) ?out1 @ [?out1 ! unat c]"
        using cb by (simp add: take_Suc_conv_app_nth)
      then have tk: "take (unat (c + 1)) ?out1 = take (unat c) out @ [ucast i]"
        using cb csuc by simp
      have fl: "filter (\<lambda>j. out ! j \<noteq> 0) [unat i..<unat R] = unat i # filter (\<lambda>j. out ! j \<noteq> 0) [unat (i + 1)..<unat R]"
        using nz by (simp add: upt)
      have "unat c' = unat c + length (filter (\<lambda>j. out ! j \<noteq> 0) [unat i..<unat R])"
        using r(3) by (simp add: same fl csuc)
      moreover have "take (unat c') out' = take (unat c) out @ map of_nat (filter (\<lambda>j. out ! j \<noteq> 0) [unat i..<unat R])"
        using r(4) by (simp add: same fl tk)
      moreover have "length out' = length out" using r(2) by simp
      ultimately show ?thesis
        unfolding step using r(1) by blast
    next
      case z: False
      have step: "compactBins R i c out = compactBins R (i + 1) c out"
        by (subst compactBins.simps) (use True inb z in simp)
      have p2: "unat c \<le> unat (i + 1)" using "1.prems"(2) suc by simp
      have p3: "unat (i + 1) \<le> unat R" using lt suc by simp
      have nb: "\<not> \<not> unat i < length out" using inb by simp
      from "1.IH"(2)[OF True nb z "1.prems"(1) p2 p3] obtain c' out' where
        r: "compactBins R (i + 1) c out = Inr (c', out')" "length out' = length out"
           "unat c' = unat c + length (filter (\<lambda>j. out ! j \<noteq> 0) [unat (i + 1)..<unat R])"
           "take (unat c') out' = take (unat c) out @ map of_nat (filter (\<lambda>j. out ! j \<noteq> 0) [unat (i + 1)..<unat R])"
        by blast
      have fl: "filter (\<lambda>j. out ! j \<noteq> 0) [unat i..<unat R] = filter (\<lambda>j. out ! j \<noteq> 0) [unat (i + 1)..<unat R]"
        using z by (simp add: upt)
      show ?thesis
        unfolding step fl using r by blast
    qed
  qed
qed

lemma deduplicateSortIndices_eq:
  fixes rd :: "nat \<Rightarrow> 'a::len word"
  assumes m: "maxIndexValue \<noteq> - 1" and n: "indexCount < 2 ^ 32"
    and rd: "\<forall>k<indexCount. readIndex pIndexData k = Inr (rd k) \<and> unat (rd k) \<le> unat maxIndexValue"
  shows "deduplicateSortIndices pIndexData indexCount maxIndexValue ([] :: 'a word list) =
           Some (Inr (map of_nat (filter (\<lambda>j. \<exists>k<indexCount. unat (rd k) = j) [0..<unat maxIndexValue + 1])))"
proof -
  let ?R = "maxIndexValue + 1"
  have R: "unat ?R = unat maxIndexValue + 1"
  proof -
    have "1 + maxIndexValue \<noteq> 0" using m by (simp add: add_eq_0_iff)
    then show ?thesis using unatSuc[of maxIndexValue] by (simp add: add.commute)
  qed
  let ?out0 = "replicate (unat ?R) (0 :: 'a word)"
  have pre: "\<forall>k<indexCount. readIndex pIndexData k = Inr (rd k) \<and> unat (rd k) \<le> unat maxIndexValue \<and> unat (rd k) < length ?out0"
    using rd R by auto
  from markBins_total[OF n pre, of 0] obtain out1 where
    o1: "markBins pIndexData indexCount maxIndexValue 0 ?out0 = Some (Inr out1)" "length out1 = unat ?R"
    and o1': "\<forall>j<length ?out0. out1 ! j = (if \<exists>k. unat (0 :: uint32_t) \<le> k \<and> k < indexCount \<and> unat (rd k) = j then 1 else ?out0 ! j)"
    by auto
  have o13: "\<forall>j<unat ?R. out1 ! j = (if \<exists>k<indexCount. unat (rd k) = j then 1 else 0)"
  proof (intro allI impI)
    fix j assume j: "j < unat ?R"
    then have "out1 ! j = (if \<exists>k. unat (0 :: uint32_t) \<le> k \<and> k < indexCount \<and> unat (rd k) = j then 1 else ?out0 ! j)"
      using o1' by simp
    then show "out1 ! j = (if \<exists>k<indexCount. unat (rd k) = j then 1 else 0)"
      using j by simp
  qed
  have "\<exists>c' out'. compactBins ?R 0 0 out1 = Inr (c', out') \<and> length out' = length out1 \<and>
           unat c' = unat (0 :: uint32_t) + length (filter (\<lambda>j. out1 ! j \<noteq> 0) [unat (0 :: uint32_t)..<unat ?R]) \<and>
           take (unat c') out' = take (unat (0 :: uint32_t)) out1 @ map of_nat (filter (\<lambda>j. out1 ! j \<noteq> 0) [unat (0 :: uint32_t)..<unat ?R])"
    by (rule compactBins_spec) (use o1(2) in simp_all)
  then obtain c' out2 where
    o2: "compactBins ?R 0 0 out1 = Inr (c', out2)" "length out2 = unat ?R"
        "unat c' = length (filter (\<lambda>j. out1 ! j \<noteq> 0) [0..<unat ?R])"
        "take (unat c') out2 = map of_nat (filter (\<lambda>j. out1 ! j \<noteq> 0) [0..<unat ?R])"
    using o1(2) by auto
  have fl: "filter (\<lambda>j. out1 ! j \<noteq> 0) [0..<unat ?R] = filter (\<lambda>j. \<exists>k<indexCount. unat (rd k) = j) [0..<unat ?R]"
    by (rule filter_cong) (use o13 in auto)
  have "unat c' \<le> length out2"
    using o2(2,3) length_filter_le[of "\<lambda>j. out1 ! j \<noteq> 0" "[0..<unat ?R]"] by simp
  then have rs: "resize (unat c') 0 out2 = take (unat c') out2"
    by (simp add: resize_def)
  have d0: "resize (unat ?R) 0 ([] :: 'a word list) = ?out0" by (simp add: resize_def)
  have "deduplicateSortIndices pIndexData indexCount maxIndexValue ([] :: 'a word list) =
          Some (Inr (resize (unat c') 0 out2))"
    unfolding deduplicateSortIndices_def Let_def d0 o1(1) using o2(1) by simp
  also have "resize (unat c') 0 out2 = map of_nat (filter (\<lambda>j. \<exists>k<indexCount. unat (rd k) = j) [0..<unat ?R])"
    unfolding rs o2(4) fl ..
  finally show ?thesis unfolding R .
qed

lemma strictly_ascending_unat_filter:
  fixes out :: "'a::len word list"
  assumes "map unat out = filter P [0..<n]"
  shows "sorted_wrt (<) out \<and> distinct out"
proof -
  have s: "sorted_wrt (<) (map unat out)"
    unfolding assms by (rule sorted_wrt_filter) (simp add: sorted_wrt_upt)
  then have "sorted_wrt (\<lambda>a b. unat a < unat b) out"
    by (simp add: sorted_wrt_map)
  moreover have "(<) = (\<lambda>a b :: 'a word. unat a < unat b)"
    by (intro ext) (simp add: word_less_nat_alt)
  ultimately have "sorted_wrt (<) out" by simp
  moreover have "distinct (map unat out)"
    unfolding assms by simp
  then have "distinct out" by (simp add: distinct_map)
  ultimately show ?thesis by simp
qed

text \<open>
  Claim C1, amended. For an index buffer of \<open>indexCount < 2 ^ 32\<close> elements of type
  \<open>uint16_t\<close> or \<open>uint32_t\<close> whose values all lie in \<open>[0, maxIndexValue]\<close>, with
  \<open>maxIndexValue < 2 ^ 32 - 1\<close> and an output vector that is empty at the call (as in
  \<open>hashGeometryData\<close>), \<open>deduplicateSortIndices\<close> returns, and the vector it leaves is
  strictly ascending, has no duplicates, holds exactly the values that occur in the
  buffer and has at most \<open>maxIndexValue + 1\<close> elements. The witness is the scenario
  \<open>[0, 2, 2, 0]\<close> with \<open>maxIndexValue = 3\<close>, whose result is \<open>[0, 2]\<close>.
\<close>

theorem deduplicateSortIndices_ascending_unique:
  fixes pIndexData :: "byte list option"
  assumes "maxIndexValue \<noteq> - 1" and "indexCount < 2 ^ 32"
    and "\<forall>k<indexCount. \<exists>index :: 'a::len word.
           readIndex pIndexData k = Inr index \<and> unat index \<le> unat maxIndexValue"
  shows "\<exists>out :: 'a word list.
           deduplicateSortIndices pIndexData indexCount maxIndexValue [] = Some (Inr out) \<and>
           sorted_wrt (<) out \<and> distinct out \<and>
           set out = {index. \<exists>k<indexCount. readIndex pIndexData k = Inr index} \<and>
           length out \<le> unat maxIndexValue + 1"
proof -
  define rd :: "nat \<Rightarrow> 'a word" where "rd k = projr (readIndex pIndexData k)" for k
  have rd: "\<forall>k<indexCount. readIndex pIndexData k = Inr (rd k) \<and> unat (rd k) \<le> unat maxIndexValue"
    using assms(3) by (auto simp: rd_def)
  let ?marked = "\<lambda>j. \<exists>k<indexCount. unat (rd k) = j"
  define N where "N = unat maxIndexValue + 1"
  let ?js = "filter ?marked [0..<N]"
  let ?out = "map of_nat ?js :: 'a word list"
  have eq: "deduplicateSortIndices pIndexData indexCount maxIndexValue ([] :: 'a word list) = Some (Inr ?out)"
    unfolding N_def by (rule deduplicateSortIndices_eq[OF assms(1,2) rd])
  have un: "map unat ?out = ?js"
  proof -
    have "map (\<lambda>j. unat (of_nat j :: 'a word)) ?js = map (\<lambda>j. j) ?js"
      by (rule map_cong) (auto simp: )
    then show ?thesis by (simp add: comp_def)
  qed
  have so: "sorted_wrt (<) ?out \<and> distinct ?out"
    by (rule strictly_ascending_unat_filter[OF un])
  have st: "set ?out = {index. \<exists>k<indexCount. readIndex pIndexData k = Inr index}"
  proof (intro set_eqI iffI)
    fix w :: "'a word" assume "w \<in> set ?out"
    then obtain k where "k < indexCount" "w = of_nat (unat (rd k))" by auto
    then have "k < indexCount \<and> readIndex pIndexData k = Inr w" using rd by simp
    then show "w \<in> {index. \<exists>k<indexCount. readIndex pIndexData k = Inr index}" by blast
  next
    fix w :: "'a word" assume "w \<in> {index. \<exists>k<indexCount. readIndex pIndexData k = Inr index}"
    then obtain k where k: "k < indexCount" "readIndex pIndexData k = Inr w" by blast
    with rd have w: "w = rd k" "unat (rd k) \<le> unat maxIndexValue" by auto
    then have "unat w \<in> set ?js" using k(1) by (auto simp: N_def)
    then have "of_nat (unat w) \<in> set ?out" by (simp only: set_map image_eqI)
    then show "w \<in> set ?out" by simp
  qed
  have "length ?out \<le> unat maxIndexValue + 1"
    using length_filter_le[of ?marked "[0..<N]"] by (simp add: N_def)
  with eq so st show ?thesis by blast
qed

theorem deduplicateSortIndices_ascending_unique_witness:
  "\<exists>out :: 16 word list.
     deduplicateSortIndices (Some [0, 0, 2, 0, 2, 0, 0, 0]) 4 3 [] = Some (Inr out) \<and>
     out = [0, 2] \<and> sorted_wrt (<) out \<and> distinct out \<and>
     set out = {index. \<exists>k<4. readIndex (Some [0, 0, 2, 0, 2, 0, 0, 0]) k = Inr index} \<and>
     length out \<le> unat (3 :: uint32_t) + 1"
proof -
  have rd: "\<forall>k<4. \<exists>index :: 16 word.
           readIndex (Some [0, 0, 2, 0, 2, 0, 0, 0]) k = Inr index \<and> unat index \<le> unat (3 :: uint32_t)"
  proof (intro allI impI)
    fix k :: nat assume "k < 4"
    then consider "k = 0" | "k = 1" | "k = 2" | "k = 3" by linarith
    then show "\<exists>index :: 16 word.
           readIndex (Some [0, 0, 2, 0, 2, 0, 0, 0]) k = Inr index \<and> unat index \<le> unat (3 :: uint32_t)"
      by cases (simp_all add: readIndex_def loadLE_def)
  qed
  have ev: "deduplicateSortIndices (Some [0, 0, 2, 0, 2, 0, 0, 0]) 4 3 ([] :: 16 word list) = Some (Inr [0, 2])"
    by code_simp
  from deduplicateSortIndices_ascending_unique[of 3 4 "Some [0, 0, 2, 0, 2, 0, 0, 0]", where 'a=16, OF _ _ rd]
  show ?thesis unfolding ev by simp
qed

text \<open>
  At \<open>maxIndexValue = 0xFFFFFFFF\<close> the bin count \<open>maxIndexValue + 1\<close> wraps to 0, the
  vector is resized to no elements, and the first bin written lies outside it: for the
  one-element \<open>uint32_t\<close> buffer \<open>[0]\<close>, whose value is within \<open>[0, maxIndexValue]\<close>,
  no output vector is produced.
\<close>

theorem deduplicateSortIndices_counterexample:
  "deduplicateSortIndices (Some [0, 0, 0, 0]) 1 (- 1) ([] :: 32 word list) = Some (Inl OutOfBoundsAccess)
   \<and> (readIndex (Some [0, 0, 0, 0]) 0 :: fault + 32 word) = Inr 0 \<and> unat (0 :: 32 word) \<le> unat (- 1 :: uint32_t)"
  by (simp add: deduplicateSortIndices_def resize_def markBins.simps readIndex_def loadLE_def)

subsection \<open>The closure returns\<close>

text \<open>
  The index count that \<open>computeHash\<close> captures is a \<open>uint32_t\<close>, so the marking loop of
  the closure terminates: the closure returns, with its hashes or with a fault.
\<close>

lemma markBins_returns:
  fixes out :: "'a::len word list"
  assumes "indexCount < 2 ^ 32" and "unat i \<le> indexCount"
  shows "\<exists>r. markBins pIndexData indexCount maxIndexValue i out = Some r"
  using assms(2)
proof (induction "indexCount - unat i" arbitrary: i out)
  case 0
  then have "\<not> unat i < indexCount" by simp
  then show ?case by (subst markBins.simps) simp
next
  case (Suc d)
  then have lt: "unat i < indexCount" by simp
  with assms(1) have "unat i + 1 < 2 ^ 32" by simp
  then have suc: "unat (i + 1) = unat i + 1"
    using unat_add_lem[of i 1] by simp
  have d: "d = indexCount - unat (i + 1)" using Suc.hyps(2) suc by simp
  have le: "unat (i + 1) \<le> indexCount" using lt suc by simp
  note ih = Suc.hyps(1)[OF d le]
  show ?case
  proof (cases "readIndex pIndexData (unat i) :: fault + 'a word")
    case (Inl f)
    then show ?thesis by (subst markBins.simps) (simp add: lt)
  next
    case (Inr index)
    show ?thesis
    proof (cases "unat index \<le> unat maxIndexValue \<and> unat index < length out")
      case True
      with ih[of "out[unat index := 1]"] Inr lt show ?thesis
        by (subst markBins.simps) simp
    next
      case False
      with Inr lt show ?thesis
        by (subst markBins.simps) auto
    qed
  qed
qed

lemma deduplicateSortIndices_returns:
  fixes out :: "'a::len word list"
  assumes "indexCount < 2 ^ 32"
  shows "\<exists>r. deduplicateSortIndices pIndexData indexCount maxIndexValue out = Some r"
proof -
  from markBins_returns[OF assms, of 0 pIndexData maxIndexValue "resize (unat (maxIndexValue + 1)) 0 out"]
  obtain r where "markBins pIndexData indexCount maxIndexValue 0 (resize (unat (maxIndexValue + 1)) 0 out) = Some r"
    by auto
  then show ?thesis
    by (auto simp: deduplicateSortIndices_def Let_def split: sum.splits prod.splits)
qed

lemma uniqueIndicesOf_returns:
  assumes "indexCount < 2 ^ 32"
  shows "\<exists>r. uniqueIndicesOf T pIndexData indexCount maxIndexValue = Some r"
proof (cases T)
  case UInt16
  with deduplicateSortIndices_returns[OF assms, of pIndexData maxIndexValue "[] :: 16 word list"]
  show ?thesis by (auto simp: uniqueIndicesOf_def)
next
  case UInt32
  with deduplicateSortIndices_returns[OF assms, of pIndexData maxIndexValue "[] :: 32 word list"]
  show ?thesis by (auto simp: uniqueIndicesOf_def)
next
  case NoIndices
  then show ?thesis by (simp add: uniqueIndicesOf_def)
qed

lemma hashGeometryData_returns:
  assumes "indexCount < 2 ^ 32"
  shows "\<exists>r. hashGeometryData H rule T indexCount maxIndexValue pIndexData indexBufferRef vertexRegions hashesOut = Some r"
proof -
  from uniqueIndicesOf_returns[OF assms, of T pIndexData maxIndexValue] obtain u where
    u: "uniqueIndicesOf T pIndexData indexCount maxIndexValue = Some u" by blast
  have "\<exists>r. indexRules H rule T indexCount maxIndexValue pIndexData indexBufferRef hashesOut = Some r"
    by (auto simp: indexRules_def u Let_def split: option.splits sum.splits)
  then show ?thesis
    by (auto simp: hashGeometryData_def Let_def split: sum.splits prod.splits)
qed

lemma hashTaskBody_returns: "\<exists>r. hashTaskBody H rule task = Some r"
proof -
  have "unat (taskIndexCount task) < 2 ^ 32"
    using unsigned_less[of "taskIndexCount task", where 'a=nat] by simp
  from hashGeometryData_returns[OF this] obtain r where
    "hashesBeforeAssert H rule task = Some r"
    unfolding hashesBeforeAssert_def by blast
  then show ?thesis
    by (cases r; cases "fst r") (auto simp: hashTaskBody_def hashesBeforeAssert_def Let_def)
qed

lemma deliveredHashes_returns: "\<exists>r. deliveredHashes H rule dev geoData maxIndexValue workers = Some r"
proof -
  obtain a b c where c: "computeHash H rule dev geoData maxIndexValue workers = (a, b, c)"
    by (cases "computeHash H rule dev geoData maxIndexValue workers")
  show ?thesis
  proof (cases a)
    case (Inl f)
    then show ?thesis by (simp add: deliveredHashes_def c)
  next
    case (Inr fut)
    show ?thesis
    proof (cases fut)
      case InvalidFuture
      with Inr show ?thesis by (simp add: deliveredHashes_def c)
    next
      case (PendingFuture i)
      from hashTaskBody_returns[of H rule "c ! i"] obtain r where "hashTaskBody H rule (c ! i) = Some r"
        by blast
      with Inr PendingFuture show ?thesis
        by (cases r; cases "fst r") (auto simp: deliveredHashes_def c)
    qed
  qed
qed

subsection \<open>Submission and buffer lifetime\<close>

text \<open>
  Claim C2. For every geometry whose position buffer is undefined, \<open>computeHash\<close> returns
  the default-constructed (invalid) \<open>Future\<close>, the queue of the geometry workers is left
  as it was (no closure is scheduled), and no buffer call (\<open>acquire\<close>, \<open>incRef\<close>) has
  been made.
\<close>

theorem computeHash_undefined_position:
  assumes "\<not> defined (positionBuffer geoData)"
  shows "computeHash H rule dev geoData maxIndexValue workers = (Inr InvalidFuture, [], workers)"
  using assms by (simp add: computeHash_def getVertexRegion_def)

theorem computeHash_undefined_position_witness:
  "\<not> defined (positionBuffer noPositionGeometry) \<and>
   computeHash sampleHashing {VertexPosition} sampleDevice noPositionGeometry 2 [] = (Inr InvalidFuture, [], [])"
proof -
  have d: "\<not> defined (positionBuffer noPositionGeometry)"
    by (simp add: noPositionGeometry_def undefinedBuffer_def)
  from computeHash_undefined_position[OF d] d show ?thesis by simp
qed

lemmas sample_defs = sampleGeometry_def zeroStrideTexcoordGeometry_def noPositionGeometry_def
  mappedBuffer_def undefinedBuffer_def sampleDevice_def sampleVertices_def sampleHashing_def sampleHash_def

lemmas model_defs = computeHash_def getVertexRegion_def acquireAndIncRef_def Schedule_def
  vertexShaderHashOf_def geometryDescriptorHashOf_def vertexLayoutHashOf_def test_def zeroHashQuery_def
  hashTaskBody_def hashGeometryData_def indexRules_def vertexRules_def legacyPositionRules_def
  releaseRegions_def setEntry_def emptyGeometryHashes_def hashVertexRegionIndexed_def vertexBytes_def
  allComponents_def componentToRegionMap_def calls_def

text \<open>
  Claim C3 at a failing input. A texture coordinate stream of stride 0 is defined, so
  the submission thread acquires and references its buffer (identity 2); its region has
  size \<open>stride * vertexCount = 0\<close>, so the release loop of the closure skips it. Two
  \<open>acquire\<close> and two \<open>incRef\<close> calls are answered by one \<open>release\<close> and one \<open>decRef\<close>.
\<close>

theorem zero_size_region_acquired_not_released:
  "fst (snd (computeHash sampleHashing {VertexPosition} sampleDevice zeroStrideTexcoordGeometry 2 []))
     = [Acquire 1, IncRef 1, Acquire 2, IncRef 2] \<and>
   map (\<lambda>task. map_option snd (hashTaskBody sampleHashing {VertexPosition} task))
       (snd (snd (computeHash sampleHashing {VertexPosition} sampleDevice zeroStrideTexcoordGeometry 2 [])))
     = [Some [Release 1, DecRef 1]]"
  by (simp add: model_defs sample_defs Let_def)

text \<open>
  The submission written out, and the balance of buffer calls that holds when no defined
  vertex region is empty and the index buffer is present exactly for the strides 2 and 4.
\<close>

lemma computeHash_cases:
  "computeHash H rule dev geoData maxIndexValue workers =
     (if \<not> defined (positionBuffer geoData) then (Inr InvalidFuture, [], workers)
      else case bufferPtr (positionBuffer geoData) of
        None \<Rightarrow> (Inl AssertionFailed, [], workers)
      | Some p \<Rightarrow>
          if defined (texcoordBuffer geoData) \<and> bufferPtr (texcoordBuffer geoData) = None
          then (Inl AssertionFailed, [Acquire p, IncRef p], workers)
          else (Inr (PendingFuture (length workers)),
                [Acquire p, IncRef p]
                  @ (if defined (texcoordBuffer geoData)
                     then (case bufferPtr (texcoordBuffer geoData) of Some t \<Rightarrow> [Acquire t, IncRef t] | None \<Rightarrow> [])
                     else [])
                  @ (case bufferPtr (indexBuffer geoData) of Some b \<Rightarrow> [Acquire b, IncRef b] | None \<Rightarrow> []),
                workers @ [taskOf H rule dev geoData maxIndexValue]))"
  by (auto simp: computeHash_def getVertexRegion_def acquireAndIncRef_def Schedule_def Let_def taskOf_def
        regionOf_def split: option.splits)

lemma deliveredHashes_cases:
  "deliveredHashes H rule dev geoData maxIndexValue workers =
     (if \<not> defined (positionBuffer geoData) then Some (Inr None)
      else if bufferPtr (positionBuffer geoData) = None then Some (Inl AssertionFailed)
      else if defined (texcoordBuffer geoData) \<and> bufferPtr (texcoordBuffer geoData) = None
           then Some (Inl AssertionFailed)
      else (case map_option fst (hashTaskBody H rule (taskOf H rule dev geoData maxIndexValue)) of
              None \<Rightarrow> None
            | Some (Inl f) \<Rightarrow> Some (Inl f)
            | Some (Inr hashes) \<Rightarrow> Some (Inr (Some hashes))))"
  unfolding deliveredHashes_def computeHash_cases
  by (auto split: option.splits sum.splits prod.splits)

lemma hashGeometryData_released:
  assumes "hashGeometryData H rule T n m p indexBufferRef regions h = Some (Inr hashes, released)"
  shows "released = (if T = NoIndices then [] else case indexBufferRef of Some b \<Rightarrow> [Release b, DecRef b] | None \<Rightarrow> [])
                      @ releaseRegions regions"
  using assms
  by (auto simp: hashGeometryData_def indexRules_def Let_def
        split: option.splits sum.splits prod.splits if_splits)

lemma releaseRegions_taskOf:
  assumes "defined (positionBuffer g) \<longrightarrow> stride (positionBuffer g) * unat (geoVertexCount g) \<noteq> 0"
    and "defined (texcoordBuffer g) \<longrightarrow> stride (texcoordBuffer g) * unat (geoVertexCount g) \<noteq> 0"
  shows "releaseRegions (taskVertexRegions (taskOf H rule dev g m)) =
           (if defined (positionBuffer g)
            then (case bufferPtr (positionBuffer g) of Some p \<Rightarrow> [Release p, DecRef p] | None \<Rightarrow> []) else [])
         @ (if defined (texcoordBuffer g)
            then (case bufferPtr (texcoordBuffer g) of Some t \<Rightarrow> [Release t, DecRef t] | None \<Rightarrow> []) else [])"
  using assms
  by (auto simp: releaseRegions_def taskOf_def regionOf_def zeroHashQuery_def split: option.splits)

lemma buffer_calls_balanced:
  assumes "defined (positionBuffer g) \<longrightarrow> stride (positionBuffer g) * unat (geoVertexCount g) \<noteq> 0"
    and "defined (texcoordBuffer g) \<longrightarrow> stride (texcoordBuffer g) * unat (geoVertexCount g) \<noteq> 0"
    and "(bufferPtr (indexBuffer g) \<noteq> None) = (stride (indexBuffer g) = 2 \<or> stride (indexBuffer g) = 4)"
    and "computeHash H rule dev g m workers = (Inr (PendingFuture i), submitted, workers')"
    and "hashesBeforeAssert H rule (workers' ! i) = Some (Inr hashes, released)"
  shows "calls isAcquire submitted = calls isRelease released \<and>
         calls isIncRef submitted = calls isDecRef released"
proof -
  let ?t = "taskOf H rule dev g m"
  from assms(4) have d: "defined (positionBuffer g)"
    by (auto simp: computeHash_cases split: if_splits option.splits)
  from assms(4) d obtain p where p: "bufferPtr (positionBuffer g) = Some p"
    by (auto simp: computeHash_cases split: if_splits option.splits)
  from assms(4) d p have tx: "\<not> (defined (texcoordBuffer g) \<and> bufferPtr (texcoordBuffer g) = None)"
    by (auto simp: computeHash_cases split: if_splits option.splits)
  from assms(4) d p tx have
    w: "workers' = workers @ [?t]" "i = length workers"
    and s: "submitted = [Acquire p, IncRef p]
                  @ (if defined (texcoordBuffer g)
                     then (case bufferPtr (texcoordBuffer g) of Some t \<Rightarrow> [Acquire t, IncRef t] | None \<Rightarrow> [])
                     else [])
                  @ (case bufferPtr (indexBuffer g) of Some b \<Rightarrow> [Acquire b, IncRef b] | None \<Rightarrow> [])"
    by (simp_all add: computeHash_cases)
  have t: "workers' ! i = ?t" by (simp add: w)
  have hb: "hashesBeforeAssert H rule ?t = Some (Inr hashes, released)"
    using assms(5) t by simp
  have r: "released =
      (if (if taskIndexStride ?t = 2 then UInt16 else if taskIndexStride ?t = 4 then UInt32 else NoIndices) = NoIndices
       then [] else case taskIndexBufferRef ?t of Some b \<Rightarrow> [Release b, DecRef b] | None \<Rightarrow> [])
      @ releaseRegions (taskVertexRegions ?t)"
    using hashGeometryData_released[OF hb[unfolded hashesBeforeAssert_def]] by simp
  have ti: "taskIndexStride ?t = stride (indexBuffer g)" "taskIndexBufferRef ?t = bufferPtr (indexBuffer g)"
    by (simp_all add: taskOf_def)
  note rr = releaseRegions_taskOf[OF assms(1,2), of H rule dev m]
  show ?thesis
    using assms(3) d p tx
    apply (simp only: r)
    apply (simp only: s)
    apply (simp only: rr)
    apply (cases "bufferPtr (indexBuffer g)"; cases "bufferPtr (texcoordBuffer g)")
    apply (simp_all only: taskOf_def)
    apply simp_all
    apply (simp_all add: calls_def)
    apply blast+
    done
qed

subsection \<open>Hashes of an indexed geometry\<close>

lemma deduplicateSortIndices_values:
  fixes rd :: "nat \<Rightarrow> 'a::len word"
  assumes m: "maxIndexValue \<noteq> - 1" and n: "indexCount < 2 ^ 32"
    and rd: "\<forall>k<indexCount. \<exists>v. map_sum id unat (readIndex pIndexData k :: fault + 'a word) = Inr v \<and> v \<le> unat maxIndexValue"
  shows "map_option (map_sum id (map unat))
           (deduplicateSortIndices pIndexData indexCount maxIndexValue ([] :: 'a word list)) =
         Some (Inr (filter (\<lambda>j. \<exists>k<indexCount. map_sum id unat (readIndex pIndexData k :: fault + 'a word) = Inr j)
                      [0..<unat maxIndexValue + 1]))"
proof -
  define rdw :: "nat \<Rightarrow> 'a word" where "rdw k = projr (readIndex pIndexData k)" for k
  have r: "readIndex pIndexData k = Inr (rdw k) \<and> unat (rdw k) \<le> unat maxIndexValue" if "k < indexCount" for k
  proof -
    from rd that obtain v where v: "map_sum id unat (readIndex pIndexData k :: fault + 'a word) = Inr v" "v \<le> unat maxIndexValue"
      by blast
    then show ?thesis by (cases "readIndex pIndexData k :: fault + 'a word") (auto simp: rdw_def)
  qed
  then have rd': "\<forall>k<indexCount. readIndex pIndexData k = Inr (rdw k) \<and> unat (rdw k) \<le> unat maxIndexValue"
    by blast
  define N where "N = unat maxIndexValue + 1"
  have eq: "deduplicateSortIndices pIndexData indexCount maxIndexValue ([] :: 'a word list) =
              Some (Inr (map of_nat (filter (\<lambda>j. \<exists>k<indexCount. unat (rdw k) = j) [0..<N])))"
    unfolding N_def by (rule deduplicateSortIndices_eq[OF m n rd'])
  have un: "map unat (map of_nat (filter (\<lambda>j. \<exists>k<indexCount. unat (rdw k) = j) [0..<N]) :: 'a word list)
              = filter (\<lambda>j. \<exists>k<indexCount. unat (rdw k) = j) [0..<N]"
  proof -
    have "map (\<lambda>j. unat (of_nat j :: 'a word)) (filter (\<lambda>j. \<exists>k<indexCount. unat (rdw k) = j) [0..<N])
            = map (\<lambda>j. j) (filter (\<lambda>j. \<exists>k<indexCount. unat (rdw k) = j) [0..<N])"
      by (rule map_cong) auto
    then show ?thesis by (simp add: comp_def)
  qed
  have fl: "filter (\<lambda>j. \<exists>k<indexCount. unat (rdw k) = j) [0..<N]
              = filter (\<lambda>j. \<exists>k<indexCount. map_sum id unat (readIndex pIndexData k :: fault + 'a word) = Inr j) [0..<N]"
    by (rule filter_cong) (use r in auto)
  have "map_option (map_sum id (map unat))
           (deduplicateSortIndices pIndexData indexCount maxIndexValue ([] :: 'a word list)) =
        Some (Inr (map unat (map of_nat (filter (\<lambda>j. \<exists>k<indexCount. unat (rdw k) = j) [0..<N]) :: 'a word list)))"
    unfolding eq by simp
  then have "map_option (map_sum id (map unat))
           (deduplicateSortIndices pIndexData indexCount maxIndexValue ([] :: 'a word list)) =
        Some (Inr (filter (\<lambda>j. \<exists>k<indexCount. map_sum id unat (readIndex pIndexData k :: fault + 'a word) = Inr j) [0..<N]))"
    by (simp only: un) (simp only: fl)
  then show ?thesis unfolding N_def .
qed

lemma uniqueIndicesOf_eq:
  assumes T: "T \<noteq> NoIndices" and m: "maxIndexValue \<noteq> - 1" and n: "indexCount < 2 ^ 32"
    and rd: "\<forall>k<indexCount. \<exists>v. indexValue T pIndexData k = Inr v \<and> v \<le> unat maxIndexValue"
  shows "uniqueIndicesOf T pIndexData indexCount maxIndexValue =
           Some (Inr (filter (\<lambda>j. \<exists>k<indexCount. indexValue T pIndexData k = Inr j) [0..<unat maxIndexValue + 1]))"
proof (cases T)
  case UInt16
  with rd have "\<forall>k<indexCount. \<exists>v. map_sum id unat (readIndex pIndexData k :: fault + 16 word) = Inr v \<and> v \<le> unat maxIndexValue"
    by (simp add: indexValue_def)
  from deduplicateSortIndices_values[OF m n this] UInt16 show ?thesis
    by (simp add: uniqueIndicesOf_def indexValue_def)
next
  case UInt32
  with rd have "\<forall>k<indexCount. \<exists>v. map_sum id unat (readIndex pIndexData k :: fault + 32 word) = Inr v \<and> v \<le> unat maxIndexValue"
    by (simp add: indexValue_def)
  from deduplicateSortIndices_values[OF m n this] UInt32 show ?thesis
    by (simp add: uniqueIndicesOf_def indexValue_def)
next
  case NoIndices
  with T show ?thesis by simp
qed

lemma indexValue_readBytes:
  assumes T: "T \<noteq> NoIndices" and n: "0 < indexCount"
    and rd: "\<forall>k<indexCount. \<exists>v. indexValue T pIndexData k = Inr v \<and> v \<le> unat maxIndexValue"
  shows "\<exists>mem. pIndexData = Some mem \<and> indexCount * sizeofT T \<le> length mem \<and>
           readBytes pIndexData (indexCount * sizeofT T) = Inr (take (indexCount * sizeofT T) mem)"
proof -
  from rd n obtain v where v: "indexValue T pIndexData (indexCount - 1) = Inr v"
    by (metis diff_less zero_less_one)
  have "\<exists>mem. pIndexData = Some mem \<and> indexCount * sizeofT T \<le> length mem"
  proof (cases T)
    case UInt16
    with v n show ?thesis
      by (cases pIndexData) (auto simp: indexValue_def readIndex_def sizeofT_def Let_def split: if_splits)
  next
    case UInt32
    with v n show ?thesis
      by (cases pIndexData) (auto simp: indexValue_def readIndex_def sizeofT_def Let_def split: if_splits)
  next
    case NoIndices
    with T show ?thesis by simp
  qed
  then show ?thesis by (auto simp: readBytes_def)
qed

lemma indexRules_indexed:
  assumes T: "T \<noteq> NoIndices" and m: "maxIndexValue \<noteq> - 1"
    and n: "0 < indexCount" "indexCount < 2 ^ 32"
    and rd: "\<forall>k<indexCount. \<exists>v. indexValue T pIndexData k = Inr v \<and> v \<le> unat maxIndexValue"
  shows "\<exists>indexBytes hashes.
           readBytes pIndexData (indexCount * sizeofT T) = Inr indexBytes \<and>
           indexRules H rule T indexCount maxIndexValue pIndexData (Some b) hashesOut =
             Some (Inr (filter (\<lambda>j. \<exists>k<indexCount. indexValue T pIndexData k = Inr j) [0..<unat maxIndexValue + 1],
                        hashes), [Release b, DecRef b]) \<and>
           (\<forall>c. entries hashes c =
                  (if c = Indices \<and> test rule Indices then hashContiguousMemory H indexBytes
                   else if c = LegacyIndices \<and> test rule LegacyIndices
                        then hashIndicesLegacy H (sizeofT T) indexBytes
                   else entries hashesOut c))"
proof -
  from indexValue_readBytes[OF T n(1) rd] obtain mem where
    rb: "readBytes pIndexData (indexCount * sizeofT T) = Inr (take (indexCount * sizeofT T) mem)"
    by blast
  note u = uniqueIndicesOf_eq[OF T m n(2) rd]
  show ?thesis
    using T n(1) rb u
    by (auto simp: indexRules_def setEntry_def Let_def)
qed

lemma entries_vertexRules:
  "entries (vertexRules H rule vertexRegions uniqueIndices hashesOut) c =
     (case componentToRegionMap c of
        Some region \<Rightarrow> if test rule c
                       then hashVertexRegionIndexed H (vertexRegions region) uniqueIndices
                       else entries hashesOut c
      | None \<Rightarrow> entries hashesOut c)"
  by (cases c) (simp_all add: vertexRules_def allComponents_def componentToRegionMap_def setEntry_def)

lemma entries_legacyPositionRules:
  "entries (legacyPositionRules H rule vertexRegions hashesOut) c =
     (if test rule LegacyPositions0 \<or> test rule LegacyPositions1 then
        (if c = LegacyPositions0 then
           fst (hashRegionLegacy H (pBase (vertexRegions Position)) (elementSize (vertexRegions Position))
                  (HashQuery.stride (vertexRegions Position)) (size (vertexRegions Position))
                  (entries hashesOut LegacyPositions0) (entries hashesOut LegacyPositions1))
         else if c = LegacyPositions1 then
           snd (hashRegionLegacy H (pBase (vertexRegions Position)) (elementSize (vertexRegions Position))
                  (HashQuery.stride (vertexRegions Position)) (size (vertexRegions Position))
                  (entries hashesOut LegacyPositions0) (entries hashesOut LegacyPositions1))
         else entries hashesOut c)
      else entries hashesOut c)"
  by (auto simp: legacyPositionRules_def setEntry_def Let_def split: prod.splits)

lemma hashGeometryData_indexed:
  assumes T: "T \<noteq> NoIndices" and m: "maxIndexValue \<noteq> - 1"
    and n: "0 < indexCount" "indexCount < 2 ^ 32"
    and rd: "\<forall>k<indexCount. \<exists>v. indexValue T pIndexData k = Inr v \<and> v \<le> unat maxIndexValue"
  shows "\<exists>indexBytes hashes.
           readBytes pIndexData (indexCount * sizeofT T) = Inr indexBytes \<and>
           hashGeometryData H rule T indexCount maxIndexValue pIndexData (Some b) vertexRegions hashesOut =
             Some (Inr hashes, [Release b, DecRef b] @ releaseRegions vertexRegions) \<and>
           entries hashes VertexPosition =
             (if test rule VertexPosition
              then hashVertexRegionIndexed H (vertexRegions Position)
                     (filter (\<lambda>j. \<exists>k<indexCount. indexValue T pIndexData k = Inr j) [0..<unat maxIndexValue + 1])
              else entries hashesOut VertexPosition) \<and>
           entries hashes VertexTexcoord =
             (if test rule VertexTexcoord
              then hashVertexRegionIndexed H (vertexRegions Texcoord)
                     (filter (\<lambda>j. \<exists>k<indexCount. indexValue T pIndexData k = Inr j) [0..<unat maxIndexValue + 1])
              else entries hashesOut VertexTexcoord) \<and>
           entries hashes Indices =
             (if test rule Indices then hashContiguousMemory H indexBytes else entries hashesOut Indices)"
proof -
  from indexRules_indexed[OF T m n rd, of H rule b hashesOut] obtain indexBytes hashes1 where
    r: "readBytes pIndexData (indexCount * sizeofT T) = Inr indexBytes"
       "indexRules H rule T indexCount maxIndexValue pIndexData (Some b) hashesOut =
          Some (Inr (filter (\<lambda>j. \<exists>k<indexCount. indexValue T pIndexData k = Inr j) [0..<unat maxIndexValue + 1],
                     hashes1), [Release b, DecRef b])"
       "\<forall>c. entries hashes1 c =
                  (if c = Indices \<and> test rule Indices then hashContiguousMemory H indexBytes
                   else if c = LegacyIndices \<and> test rule LegacyIndices
                        then hashIndicesLegacy H (sizeofT T) indexBytes
                   else entries hashesOut c)"
    by blast
  show ?thesis
    using r(1) r(3)
    by (simp add: hashGeometryData_def r(2) Let_def entries_legacyPositionRules entries_vertexRules
          componentToRegionMap_def del: upt_Suc)
qed

text \<open>
  Claim C4, amended. For an indexed geometry, replacing the index buffer by one that
  references the same set of index values (in particular by a permutation of it) leaves
  the \<open>VertexPosition\<close> and \<open>VertexTexcoord\<close> entries unchanged. The \<open>Indices\<close> entry is
  \<open>hashContiguousMemory\<close> of the index bytes in buffer order when the \<open>Indices\<close> component
  is active, and is left as it was when the component is inactive; so it differs between
  the two buffers exactly when the component is active and \<open>hashContiguousMemory\<close>
  tells the two byte sequences apart.
\<close>

theorem index_order_invariance:
  assumes "T \<noteq> NoIndices" and "maxIndexValue \<noteq> - 1"
    and "0 < indexCount" and "indexCount < 2 ^ 32" and "0 < indexCount'" and "indexCount' < 2 ^ 32"
    and "\<forall>k<indexCount. \<exists>v. indexValue T pIndexData k = Inr v \<and> v \<le> unat maxIndexValue"
    and "\<forall>k<indexCount'. \<exists>v. indexValue T pIndexData' k = Inr v \<and> v \<le> unat maxIndexValue"
    and "{v. \<exists>k<indexCount. indexValue T pIndexData k = Inr v} =
         {v. \<exists>k<indexCount'. indexValue T pIndexData' k = Inr v}"
  shows "\<exists>hashes hashes' released indexBytes indexBytes'.
           hashGeometryData H rule T indexCount maxIndexValue pIndexData (Some b) vertexRegions hashesOut =
             Some (Inr hashes, released) \<and>
           hashGeometryData H rule T indexCount' maxIndexValue pIndexData' (Some b) vertexRegions hashesOut =
             Some (Inr hashes', released) \<and>
           entries hashes VertexPosition = entries hashes' VertexPosition \<and>
           entries hashes VertexTexcoord = entries hashes' VertexTexcoord \<and>
           readBytes pIndexData (indexCount * sizeofT T) = Inr indexBytes \<and>
           readBytes pIndexData' (indexCount' * sizeofT T) = Inr indexBytes' \<and>
           entries hashes Indices =
             (if test rule Indices then hashContiguousMemory H indexBytes else entries hashesOut Indices) \<and>
           entries hashes' Indices =
             (if test rule Indices then hashContiguousMemory H indexBytes' else entries hashesOut Indices)"
proof -
  have same: "(\<lambda>j. \<exists>k<indexCount. indexValue T pIndexData k = Inr j) =
              (\<lambda>j. \<exists>k<indexCount'. indexValue T pIndexData' k = Inr j)"
    using assms(9) by (auto simp: set_eq_iff fun_eq_iff)
  from hashGeometryData_indexed[OF assms(1,2,3,4,7), of H rule b vertexRegions hashesOut]
  obtain indexBytes hashes where 1:
    "readBytes pIndexData (indexCount * sizeofT T) = Inr indexBytes"
    "hashGeometryData H rule T indexCount maxIndexValue pIndexData (Some b) vertexRegions hashesOut =
       Some (Inr hashes, [Release b, DecRef b] @ releaseRegions vertexRegions)"
    "entries hashes VertexPosition =
       (if test rule VertexPosition
        then hashVertexRegionIndexed H (vertexRegions Position)
               (filter (\<lambda>j. \<exists>k<indexCount. indexValue T pIndexData k = Inr j) [0..<unat maxIndexValue + 1])
        else entries hashesOut VertexPosition)"
    "entries hashes VertexTexcoord =
       (if test rule VertexTexcoord
        then hashVertexRegionIndexed H (vertexRegions Texcoord)
               (filter (\<lambda>j. \<exists>k<indexCount. indexValue T pIndexData k = Inr j) [0..<unat maxIndexValue + 1])
        else entries hashesOut VertexTexcoord)"
    "entries hashes Indices =
       (if test rule Indices then hashContiguousMemory H indexBytes else entries hashesOut Indices)"
    by blast
  from hashGeometryData_indexed[OF assms(1,2,5,6,8), of H rule b vertexRegions hashesOut]
  obtain indexBytes' hashes' where 2:
    "readBytes pIndexData' (indexCount' * sizeofT T) = Inr indexBytes'"
    "hashGeometryData H rule T indexCount' maxIndexValue pIndexData' (Some b) vertexRegions hashesOut =
       Some (Inr hashes', [Release b, DecRef b] @ releaseRegions vertexRegions)"
    "entries hashes' VertexPosition =
       (if test rule VertexPosition
        then hashVertexRegionIndexed H (vertexRegions Position)
               (filter (\<lambda>j. \<exists>k<indexCount'. indexValue T pIndexData' k = Inr j) [0..<unat maxIndexValue + 1])
        else entries hashesOut VertexPosition)"
    "entries hashes' VertexTexcoord =
       (if test rule VertexTexcoord
        then hashVertexRegionIndexed H (vertexRegions Texcoord)
               (filter (\<lambda>j. \<exists>k<indexCount'. indexValue T pIndexData' k = Inr j) [0..<unat maxIndexValue + 1])
        else entries hashesOut VertexTexcoord)"
    "entries hashes' Indices =
       (if test rule Indices then hashContiguousMemory H indexBytes' else entries hashesOut Indices)"
    by blast
  have "entries hashes VertexPosition = entries hashes' VertexPosition"
    unfolding 1(3) 2(3) same ..
  moreover have "entries hashes VertexTexcoord = entries hashes' VertexTexcoord"
    unfolding 1(4) 2(4) same ..
  ultimately show ?thesis using 1(1,2,5) 2(1,2,5) by blast
qed

lemma triangle_values:
  "indexValue UInt16 triangleIndices 0 = Inr 0" "indexValue UInt16 triangleIndices (Suc 0) = Inr 1"
  "indexValue UInt16 triangleIndices 2 = Inr 2"
  "indexValue UInt16 reversedTriangleIndices 0 = Inr 2" "indexValue UInt16 reversedTriangleIndices (Suc 0) = Inr 1"
  "indexValue UInt16 reversedTriangleIndices 2 = Inr 0"
  by (simp_all add: indexValue_def readIndex_def loadLE_def triangleIndices_def reversedTriangleIndices_def)

lemma less_3_cases: "k < (3::nat) \<longleftrightarrow> k = 0 \<or> k = Suc 0 \<or> k = 2"
  by auto

theorem index_order_invariance_witness:
  "\<exists>hashes hashes' released indexBytes indexBytes'.
      hashGeometryData sampleHashing {VertexPosition, VertexTexcoord, Indices} UInt16 3 2 triangleIndices
          (Some 3) sampleRegions (emptyGeometryHashes sampleHashing) = Some (Inr hashes, released) \<and>
      hashGeometryData sampleHashing {VertexPosition, VertexTexcoord, Indices} UInt16 3 2 reversedTriangleIndices
          (Some 3) sampleRegions (emptyGeometryHashes sampleHashing) = Some (Inr hashes', released) \<and>
      entries hashes VertexPosition = entries hashes' VertexPosition \<and>
      entries hashes VertexTexcoord = entries hashes' VertexTexcoord \<and>
      readBytes triangleIndices (3 * sizeofT UInt16) = Inr indexBytes \<and>
      readBytes reversedTriangleIndices (3 * sizeofT UInt16) = Inr indexBytes' \<and>
      entries hashes Indices =
        (if test {VertexPosition, VertexTexcoord, Indices} Indices
         then hashContiguousMemory sampleHashing indexBytes
         else entries (emptyGeometryHashes sampleHashing) Indices) \<and>
      entries hashes' Indices =
        (if test {VertexPosition, VertexTexcoord, Indices} Indices
         then hashContiguousMemory sampleHashing indexBytes'
         else entries (emptyGeometryHashes sampleHashing) Indices)"
proof -
  have h1: "UInt16 \<noteq> NoIndices" by simp
  have h2: "(2 :: uint32_t) \<noteq> - 1" by simp
  have h3: "(0 :: nat) < 3" "(3 :: nat) < 2 ^ 32" by simp_all
  have h4: "\<forall>k<3. \<exists>v. indexValue UInt16 triangleIndices k = Inr v \<and> v \<le> unat (2 :: uint32_t)"
    by (auto simp: less_3_cases triangle_values)
  have h5: "\<forall>k<3. \<exists>v. indexValue UInt16 reversedTriangleIndices k = Inr v \<and> v \<le> unat (2 :: uint32_t)"
    by (auto simp: less_3_cases triangle_values)
  have h6: "{v. \<exists>k<3. indexValue UInt16 triangleIndices k = Inr v} =
            {v. \<exists>k<3. indexValue UInt16 reversedTriangleIndices k = Inr v}"
    by (auto simp: less_3_cases triangle_values)
  show ?thesis by (rule index_order_invariance[OF h1 h2 h3 h3 h4 h5 h6])
qed

text \<open>
  With the \<open>Indices\<close> component inactive, reversing the index buffer \<open>[0, 1, 2]\<close> to
  \<open>[2, 1, 0]\<close> does not change the \<open>Indices\<close> entry: it is the sentinel for both.
\<close>

theorem indices_hash_unchanged_counterexample:
  "indexValue UInt16 triangleIndices 0 = Inr 0 \<and> indexValue UInt16 triangleIndices 1 = Inr 1 \<and>
   indexValue UInt16 triangleIndices 2 = Inr 2 \<and>
   indexValue UInt16 reversedTriangleIndices 0 = Inr 2 \<and> indexValue UInt16 reversedTriangleIndices 1 = Inr 1 \<and>
   indexValue UInt16 reversedTriangleIndices 2 = Inr 0 \<and>
   map_option (map_sum id (\<lambda>hashes. entries hashes Indices) \<circ> fst)
     (hashGeometryData sampleHashing {VertexPosition, VertexTexcoord} UInt16 3 2 triangleIndices
        (Some 3) sampleRegions (emptyGeometryHashes sampleHashing))
   = Some (Inr (kEmptyHash sampleHashing)) \<and>
   map_option (map_sum id (\<lambda>hashes. entries hashes Indices) \<circ> fst)
     (hashGeometryData sampleHashing {VertexPosition, VertexTexcoord} UInt16 3 2 reversedTriangleIndices
        (Some 3) sampleRegions (emptyGeometryHashes sampleHashing))
   = Some (Inr (kEmptyHash sampleHashing))"
  by code_simp

subsection \<open>Non-indexed geometry\<close>

lemma hashGeometryData_NoIndices:
  "hashGeometryData H rule NoIndices indexCount maxIndexValue pIndexData indexBufferRef vertexRegions hashesOut =
     Some (Inr (legacyPositionRules H rule vertexRegions (vertexRules H rule vertexRegions [] hashesOut)),
           releaseRegions vertexRegions)"
  by (simp add: hashGeometryData_def indexRules_def)

lemma hashVertexRegionIndexed_all_vertices:
  assumes "size query = HashQuery.stride query * n"
  shows "hashVertexRegionIndexed H query [0..<n] = hashVertexRegionIndexed H query []"
proof (cases "size query = 0")
  case True
  then show ?thesis by (simp add: hashVertexRegionIndexed_def)
next
  case False
  with assms have "HashQuery.stride query \<noteq> 0" "n \<noteq> 0" by auto
  with assms have "size query div HashQuery.stride query = n" "[0..<n] \<noteq> []" by auto
  then show ?thesis using False by (simp add: hashVertexRegionIndexed_def)
qed

lemma hashGeometryData_identity_indices:
  assumes T: "T \<noteq> NoIndices" and m: "maxIndexValue \<noteq> - 1"
    and n: "0 < n" "n < 2 ^ 32" "n \<le> unat maxIndexValue + 1"
    and idx: "\<forall>k<n. indexValue T pIndexData k = Inr k"
    and sizes: "\<forall>r. size (vertexRegions r) = HashQuery.stride (vertexRegions r) * n"
  shows "\<exists>hashes. hashGeometryData H rule T n maxIndexValue pIndexData (Some b) vertexRegions hashesOut =
           Some (Inr hashes, [Release b, DecRef b] @ releaseRegions vertexRegions) \<and>
         (\<forall>c. c \<noteq> Indices \<longrightarrow> c \<noteq> LegacyIndices \<longrightarrow>
            entries hashes c =
            entries (legacyPositionRules H rule vertexRegions (vertexRules H rule vertexRegions [] hashesOut)) c)"
proof -
  have rd: "\<forall>k<n. \<exists>v. indexValue T pIndexData k = Inr v \<and> v \<le> unat maxIndexValue"
    using idx n(3) by auto
  from indexRules_indexed[OF T m n(1,2) rd, of H rule b hashesOut] obtain indexBytes hashes1 where
    r: "indexRules H rule T n maxIndexValue pIndexData (Some b) hashesOut =
          Some (Inr (filter (\<lambda>j. \<exists>k<n. indexValue T pIndexData k = Inr j) [0..<unat maxIndexValue + 1],
                     hashes1), [Release b, DecRef b])"
       "\<forall>c. entries hashes1 c =
                  (if c = Indices \<and> test rule Indices then hashContiguousMemory H indexBytes
                   else if c = LegacyIndices \<and> test rule LegacyIndices
                        then hashIndicesLegacy H (sizeofT T) indexBytes
                   else entries hashesOut c)"
    by blast
  define N where "N = unat maxIndexValue + 1"
  have "(\<lambda>j. \<exists>k<n. indexValue T pIndexData k = Inr j) = (\<lambda>j. j < n)"
    using idx by (auto simp: fun_eq_iff)
  then have "filter (\<lambda>j. \<exists>k<n. indexValue T pIndexData k = Inr j) [0..<N] = filter (\<lambda>j. j < n) [0..<N]"
    by simp
  also have "\<dots> = [0..<n]"
  proof -
    have "N = n + (N - n)" using n(3) by (simp add: N_def)
    then have "[0..<N] = [0..<n] @ [n..<N]"
      using upt_add_eq_append[of 0 n "N - n"] by simp
    then show ?thesis by (simp del: upt_Suc)
  qed
  finally have u: "filter (\<lambda>j. \<exists>k<n. indexValue T pIndexData k = Inr j) [0..<unat maxIndexValue + 1] = [0..<n]"
    unfolding N_def .
  have hv: "hashVertexRegionIndexed H (vertexRegions reg) [0..<n] = hashVertexRegionIndexed H (vertexRegions reg) []" for reg
    by (rule hashVertexRegionIndexed_all_vertices) (use sizes in simp)
  show ?thesis
    unfolding hashGeometryData_def r(1) u
    using r(2)
    by (auto simp: Let_def entries_legacyPositionRules entries_vertexRules hv split: option.splits)
qed

lemma initial_entries:
  "entries (setEntry (setEntry (setEntry (emptyGeometryHashes H) GeometryDescriptor gd) VertexLayout vl) VertexShader vs) c =
     (if c = VertexShader then vs else if c = VertexLayout then vl else if c = GeometryDescriptor then gd
      else kEmptyHash H)"
  by (simp add: setEntry_def emptyGeometryHashes_def)

lemma vertexContent_legacy_vertexRules:
  assumes "\<forall>c \<in> {VertexPosition, VertexTexcoord, LegacyPositions0, LegacyPositions1}. entries h c = entries h' c"
  shows "map (entries (legacyPositionRules H rule vertexRegions (vertexRules H rule vertexRegions u h)))
           [VertexPosition, VertexTexcoord, LegacyPositions0, LegacyPositions1] =
         map (entries (legacyPositionRules H rule vertexRegions (vertexRules H rule vertexRegions u h')))
           [VertexPosition, VertexTexcoord, LegacyPositions0, LegacyPositions1]"
  using assms
  by (simp add: entries_legacyPositionRules entries_vertexRules componentToRegionMap_def)

text \<open>
  Claim C5. A non-indexed geometry (index stride neither 2 nor 4) of \<open>vertexCount\<close>
  vertices and the same geometry drawn with the index buffer \<open>0, 1, ..., vertexCount - 1\<close>
  (index stride 2 or 4, a valid \<open>maxIndexValue\<close>) give the same vertex content: the same
  \<open>VertexPosition\<close>, \<open>VertexTexcoord\<close> and legacy position entries, or the same fault;
  both closures return.
  The regions are as \<open>getVertexRegion\<close> leaves them, of size \<open>stride * vertexCount\<close>.
\<close>

theorem nonindexed_matches_identity_indexed:
  assumes "taskIndexStride task \<noteq> 2" and "taskIndexStride task \<noteq> 4"
    and "taskIndexStride task' = 2 \<or> taskIndexStride task' = 4"
    and "taskVertexRegions task' = taskVertexRegions task"
    and "taskIndexBufferRef task' = Some b"
    and "taskIndexCount task' = vertexCount"
    and "\<forall>r. size (taskVertexRegions task r) = HashQuery.stride (taskVertexRegions task r) * unat vertexCount"
    and "\<forall>k<unat vertexCount.
           indexValue (if taskIndexStride task' = 2 then UInt16 else UInt32) (taskPIndexData task') k = Inr k"
    and "taskMaxIndexValue task' \<noteq> - 1"
    and "unat vertexCount \<le> unat (taskMaxIndexValue task') + 1"
  shows "map_option (vertexContent \<circ> fst) (hashTaskBody H rule task') =
         map_option (vertexContent \<circ> fst) (hashTaskBody H rule task) \<and>
         (\<exists>r. hashTaskBody H rule task = Some r) \<and> (\<exists>r'. hashTaskBody H rule task' = Some r')"
proof -
  let ?regions = "taskVertexRegions task"
  let ?n = "unat vertexCount"
  define T where "T = (if taskIndexStride task' = 2 then UInt16 else UInt32)"
  have T': "(if taskIndexStride task' = 2 then UInt16 else if taskIndexStride task' = 4 then UInt32 else NoIndices) = T"
    using assms(3) by (auto simp: T_def)
  have T0: "(if taskIndexStride task = 2 then UInt16 else if taskIndexStride task = 4 then UInt32 else NoIndices) = NoIndices"
    using assms(1,2) by simp
  have Tn: "T \<noteq> NoIndices" by (simp add: T_def)
  define h0 where "h0 = setEntry (setEntry (setEntry (emptyGeometryHashes H) GeometryDescriptor
      (taskGeometryDescriptorHash task)) VertexLayout (taskVertexLayoutHash task)) VertexShader (taskVertexShaderHash task)"
  define h0' where "h0' = setEntry (setEntry (setEntry (emptyGeometryHashes H) GeometryDescriptor
      (taskGeometryDescriptorHash task')) VertexLayout (taskVertexLayoutHash task')) VertexShader (taskVertexShaderHash task')"
  have same0: "\<forall>c \<in> {VertexPosition, VertexTexcoord, LegacyPositions0, LegacyPositions1}. entries h0' c = entries h0 c"
    by (simp add: h0_def h0'_def initial_entries)
  let ?r = "legacyPositionRules H rule ?regions (vertexRules H rule ?regions [] h0)"
  let ?r' = "legacyPositionRules H rule ?regions (vertexRules H rule ?regions [] h0')"
  have vc: "map (entries ?r') [VertexPosition, VertexTexcoord, LegacyPositions0, LegacyPositions1] =
            map (entries ?r) [VertexPosition, VertexTexcoord, LegacyPositions0, LegacyPositions1]"
    by (rule vertexContent_legacy_vertexRules[OF same0])
  have body: "hashTaskBody H rule task =
     (if \<not> entries ?r VertexPosition \<noteq> kEmptyHash H
      then Some (Inl AssertionFailed, releaseRegions ?regions)
      else Some (Inr (?r\<lparr>precombined := precombine H rule (entries ?r)\<rparr>), releaseRegions ?regions))"
    unfolding hashTaskBody_def Let_def T0 hashGeometryData_NoIndices h0_def by simp
  have "map_option (vertexContent \<circ> fst) (hashTaskBody H rule task') =
        map_option (vertexContent \<circ> fst) (hashTaskBody H rule task)"
  proof (cases "?n = 0")
    case True
    have "size (?regions Position) = 0" using assms(7) True by simp
    then have "entries ?r VertexPosition = kEmptyHash H"
      by (simp add: entries_legacyPositionRules entries_vertexRules componentToRegionMap_def
            hashVertexRegionIndexed_def h0_def initial_entries)
    then have 1: "map_option (vertexContent \<circ> fst) (hashTaskBody H rule task) = Some (Inl AssertionFailed)"
      unfolding body by (simp add: vertexContent_def)
    have "hashGeometryData H rule T (unat (taskIndexCount task')) (taskMaxIndexValue task') (taskPIndexData task')
            (taskIndexBufferRef task') (taskVertexRegions task') h0' = Some (Inl AssertionFailed, [])"
      using True Tn assms(5,6) by (simp add: hashGeometryData_def indexRules_def)
    then have 2: "map_option (vertexContent \<circ> fst) (hashTaskBody H rule task') = Some (Inl AssertionFailed)"
      unfolding hashTaskBody_def Let_def T' h0'_def by (simp add: vertexContent_def)
    show ?thesis unfolding 1 2 ..
  next
    case False
    then have n: "0 < ?n" "?n < 2 ^ 32"
      using unsigned_less[of vertexCount, where 'a=nat] by simp_all
    have idx: "\<forall>k<?n. indexValue T (taskPIndexData task') k = Inr k"
      using assms(8) by (simp add: T_def)
    from hashGeometryData_identity_indices[OF Tn assms(9) n assms(10) idx assms(7), of H rule b h0']
    obtain hashes where
      g: "hashGeometryData H rule T ?n (taskMaxIndexValue task') (taskPIndexData task') (Some b) ?regions h0' =
            Some (Inr hashes, [Release b, DecRef b] @ releaseRegions ?regions)"
      and e: "\<forall>c. c \<noteq> Indices \<longrightarrow> c \<noteq> LegacyIndices \<longrightarrow> entries hashes c = entries ?r' c"
      by blast
    have eh: "map (entries hashes) [VertexPosition, VertexTexcoord, LegacyPositions0, LegacyPositions1] =
              map (entries ?r) [VertexPosition, VertexTexcoord, LegacyPositions0, LegacyPositions1]"
      using e vc by simp
    then have ep: "entries hashes VertexPosition = entries ?r VertexPosition" by simp
    have body': "hashTaskBody H rule task' =
      (if \<not> entries hashes VertexPosition \<noteq> kEmptyHash H
       then Some (Inl AssertionFailed, [Release b, DecRef b] @ releaseRegions ?regions)
       else Some (Inr (hashes\<lparr>precombined := precombine H rule (entries hashes)\<rparr>),
                  [Release b, DecRef b] @ releaseRegions ?regions))"
      unfolding hashTaskBody_def Let_def T' assms(4) assms(5) assms(6)
      using g by (simp add: h0'_def)
    show ?thesis
      unfolding body body' using eh ep by (simp add: vertexContent_def)
  qed
  with hashTaskBody_returns[of H rule task] hashTaskBody_returns[of H rule task']
  show ?thesis by simp
qed

theorem nonindexed_matches_identity_indexed_witness:
  "taskIndexStride sampleTask = 0 \<and> taskIndexStride sampleIndexedTask = 2 \<and>
   taskIndexCount sampleIndexedTask = 3 \<and> taskPIndexData sampleIndexedTask = triangleIndices \<and>
   map_option (vertexContent \<circ> fst) (hashTaskBody sampleHashing {VertexPosition, Indices} sampleIndexedTask) =
   map_option (vertexContent \<circ> fst) (hashTaskBody sampleHashing {VertexPosition, Indices} sampleTask)"
proof -
  have h1: "taskIndexStride sampleTask \<noteq> 2" "taskIndexStride sampleTask \<noteq> 4"
    by (simp_all add: sampleTask_def)
  have h3: "taskIndexStride sampleIndexedTask = 2 \<or> taskIndexStride sampleIndexedTask = 4"
    by (simp add: sampleIndexedTask_def)
  have h4: "taskVertexRegions sampleIndexedTask = taskVertexRegions sampleTask"
    by (simp add: sampleIndexedTask_def)
  have h5: "taskIndexBufferRef sampleIndexedTask = Some 3"
    by (simp add: sampleIndexedTask_def)
  have h6: "taskIndexCount sampleIndexedTask = 3"
    by (simp add: sampleIndexedTask_def)
  have h7: "\<forall>r. size (taskVertexRegions sampleTask r) = HashQuery.stride (taskVertexRegions sampleTask r) * unat (3 :: uint32_t)"
    by (simp add: sampleTask_def sampleRegions_def zeroHashQuery_def)
  have h8: "\<forall>k<unat (3 :: uint32_t).
      indexValue (if taskIndexStride sampleIndexedTask = 2 then UInt16 else UInt32)
        (taskPIndexData sampleIndexedTask) k = Inr k"
    by (auto simp: sampleIndexedTask_def less_3_cases triangle_values)
  have h9: "taskMaxIndexValue sampleIndexedTask \<noteq> - 1"
    by (simp add: sampleIndexedTask_def sampleTask_def)
  have h10: "unat (3 :: uint32_t) \<le> unat (taskMaxIndexValue sampleIndexedTask) + 1"
    by (simp add: sampleIndexedTask_def sampleTask_def)
  from nonindexed_matches_identity_indexed[OF h1 h3 h4 h5 h6 h7 h8 h9 h10, THEN conjunct1]
  show ?thesis by (simp add: sampleIndexedTask_def sampleTask_def)
qed

subsection \<open>Inactive components\<close>



lemma indexRules_inactive_entry:
  assumes "\<not> test rule c"
    and "indexRules H rule T n m p indexBufferRef hashesOut = Some (Inr (uniqueIndices, hashes), released)"
  shows "entries hashes c = entries hashesOut c"
  using assms
  by (auto simp: indexRules_def Let_def setEntry_def split: option.splits sum.splits if_splits)

lemma hashGeometryData_inactive_entry:
  assumes "\<not> test rule c" and "c \<noteq> LegacyPositions0" and "c \<noteq> LegacyPositions1"
    and "hashGeometryData H rule T n m p indexBufferRef vertexRegions hashesOut = Some (Inr hashes, released)"
  shows "entries hashes c = entries hashesOut c"
proof -
  from assms(4) obtain uniqueIndices hashes1 released1 where
    i: "indexRules H rule T n m p indexBufferRef hashesOut = Some (Inr (uniqueIndices, hashes1), released1)"
    and h: "hashes = legacyPositionRules H rule vertexRegions (vertexRules H rule vertexRegions uniqueIndices hashes1)"
    by (auto simp: hashGeometryData_def Let_def split: option.splits sum.splits prod.splits)
  have "entries hashes c = entries hashes1 c"
    unfolding h using assms(1,2,3)
    by (simp add: entries_legacyPositionRules entries_vertexRules split: option.splits)
  with indexRules_inactive_entry[OF assms(1) i] show ?thesis by simp
qed

lemma inactive_component_keeps_sentinel:
  assumes "\<not> test rule c" and "c \<noteq> LegacyPositions0" and "c \<noteq> LegacyPositions1" and "c \<noteq> VertexShader"
    and "hashesBeforeAssert H rule (taskOf H rule dev geoData maxIndexValue) = Some (Inr hashes, released)"
  shows "entries hashes c = kEmptyHash H"
proof -
  from hashGeometryData_inactive_entry[OF assms(1,2,3) assms(5)[unfolded hashesBeforeAssert_def]]
  show ?thesis
    using assms(1,4)
    by (cases c)
       (simp_all add: setEntry_def emptyGeometryHashes_def taskOf_def geometryDescriptorHashOf_def
          vertexLayoutHashOf_def)
qed


text \<open>
  Claim C9 at a failing input. The rule holds \<open>VertexPosition\<close> and \<open>GeometryDescriptor\<close>
  but not \<open>VertexShader\<close>; a programmable vertex shader with vertex capture is in use.
  The vertex shader hash is computed under the \<open>GeometryDescriptor\<close> bit and stored in the
  \<open>VertexShader\<close> entry, which therefore is not the sentinel.
\<close>

theorem vertexShader_entry_written_when_inactive:
  "\<not> test {VertexPosition, GeometryDescriptor} VertexShader \<and>
   map (\<lambda>task. case hashTaskBody sampleHashing {VertexPosition, GeometryDescriptor} task of
                 Some (Inr hashes, _) \<Rightarrow> Some (entries hashes VertexShader)
               | _ \<Rightarrow> None)
       (snd (snd (computeHash sampleHashing {VertexPosition, GeometryDescriptor} sampleDevice sampleGeometry 2 [])))
     = [Some 10884283890199453297] \<and>
   kEmptyHash sampleHashing = 0"
  by code_simp

subsection \<open>The position hash\<close>





subsection \<open>Determinism\<close>

lemma hashVertexRegionIndexed_content:
  "sameRegionContent q q' \<Longrightarrow> hashVertexRegionIndexed H q u = hashVertexRegionIndexed H q' u"
  by (simp add: sameRegionContent_def hashVertexRegionIndexed_def vertexBytes_def[abs_def])

lemma vertexRules_content:
  assumes "\<forall>r. sameRegionContent (regions r) (regions' r)"
  shows "vertexRules H rule regions u h = vertexRules H rule regions' u h"
proof -
  have e: "hashVertexRegionIndexed H (regions r) u = hashVertexRegionIndexed H (regions' r) u" for r
    using assms by (simp add: hashVertexRegionIndexed_content)
  show ?thesis by (simp add: vertexRules_def e cong: option.case_cong if_cong)
qed

lemma legacyPositionRules_content:
  assumes "\<forall>r. sameRegionContent (regions r) (regions' r)"
  shows "legacyPositionRules H rule regions h = legacyPositionRules H rule regions' h"
proof -
  have "sameRegionContent (regions Position) (regions' Position)" using assms by simp
  then show ?thesis by (simp add: legacyPositionRules_def sameRegionContent_def Let_def)
qed

lemma indexRules_content:
  assumes "(indexBufferRef = None) = (indexBufferRef' = None)"
  shows "map_option fst (indexRules H rule T n m p indexBufferRef h) =
         map_option fst (indexRules H rule T n m p indexBufferRef' h)"
  using assms
  by (cases indexBufferRef; cases indexBufferRef')
     (auto simp: indexRules_def Let_def split: option.splits sum.splits)

lemma hashGeometryData_content:
  assumes "(indexBufferRef = None) = (indexBufferRef' = None)"
    and "\<forall>r. sameRegionContent (regions r) (regions' r)"
  shows "map_option fst (hashGeometryData H rule T n m p indexBufferRef regions h) =
         map_option fst (hashGeometryData H rule T n m p indexBufferRef' regions' h)"
proof -
  note i = indexRules_content[OF assms(1), of H rule T n m p h]
  show ?thesis
  proof (cases "indexRules H rule T n m p indexBufferRef h")
    case None
    with i have "indexRules H rule T n m p indexBufferRef' h = None" by simp
    with None show ?thesis by (simp add: hashGeometryData_def)
  next
    case (Some a)
    with i obtain a' where a': "indexRules H rule T n m p indexBufferRef' h = Some a'" "fst a' = fst a"
      by (cases "indexRules H rule T n m p indexBufferRef' h") auto
    obtain r ev where a: "a = (r, ev)" by (cases a)
    obtain ev' where a'': "a' = (r, ev')" using a' a by (cases a') auto
    show ?thesis
      unfolding hashGeometryData_def Some a'(1) a a''
      by (cases r) (auto simp: Let_def vertexRules_content[OF assms(2)] legacyPositionRules_content[OF assms(2)]
            split: prod.splits)
  qed
qed

lemma hashTaskBody_content:
  assumes "sameTaskContent t t'"
  shows "map_option fst (hashTaskBody H rule t) = map_option fst (hashTaskBody H rule t')"
proof -
  let ?T = "if taskIndexStride t = 2 then UInt16 else if taskIndexStride t = 4 then UInt32 else NoIndices"
  let ?h = "setEntry (setEntry (setEntry (emptyGeometryHashes H) GeometryDescriptor (taskGeometryDescriptorHash t))
              VertexLayout (taskVertexLayoutHash t)) VertexShader (taskVertexShaderHash t)"
  let ?g = "hashGeometryData H rule ?T (unat (taskIndexCount t)) (taskMaxIndexValue t) (taskPIndexData t)
              (taskIndexBufferRef t) (taskVertexRegions t) ?h"
  let ?g' = "hashGeometryData H rule ?T (unat (taskIndexCount t)) (taskMaxIndexValue t) (taskPIndexData t)
              (taskIndexBufferRef t') (taskVertexRegions t') ?h"
  have g: "map_option fst ?g = map_option fst ?g'"
    by (rule hashGeometryData_content) (use assms in \<open>auto simp: sameTaskContent_def\<close>)
  have b: "hashTaskBody H rule t =
     (case ?g of None \<Rightarrow> None | Some (Inl f, released) \<Rightarrow> Some (Inl f, released)
      | Some (Inr hashes, released) \<Rightarrow>
          if \<not> entries hashes VertexPosition \<noteq> kEmptyHash H then Some (Inl AssertionFailed, released)
          else Some (Inr (hashes\<lparr>precombined := precombine H rule (entries hashes)\<rparr>), released))"
    by (simp add: hashTaskBody_def Let_def)
  have b': "hashTaskBody H rule t' =
     (case ?g' of None \<Rightarrow> None | Some (Inl f, released) \<Rightarrow> Some (Inl f, released)
      | Some (Inr hashes, released) \<Rightarrow>
          if \<not> entries hashes VertexPosition \<noteq> kEmptyHash H then Some (Inl AssertionFailed, released)
          else Some (Inr (hashes\<lparr>precombined := precombine H rule (entries hashes)\<rparr>), released))"
    using assms by (simp add: hashTaskBody_def Let_def sameTaskContent_def)
  show ?thesis
  proof (cases ?g)
    case None
    with g have "?g' = None" by simp
    with None show ?thesis unfolding b b' by simp
  next
    case (Some a)
    with g obtain a' where a': "?g' = Some a'" "fst a' = fst a" by (cases ?g') auto
    obtain r ev where a: "a = (r, ev)" by (cases a)
    obtain ev' where a'': "a' = (r, ev')" using a' a by (cases a') auto
    show ?thesis unfolding b b' Some a'(1) a a'' by (cases r) auto
  qed
qed

lemma regionOf_content:
  assumes "sameBufferContent (offsetFromSlice b) (offsetFromSlice b') b b'"
  shows "sameRegionContent (regionOf H b n) (regionOf H b' n)"
  using assms by (simp add: sameBufferContent_def sameRegionContent_def regionOf_def)

text \<open>
  Claim C7, amended. Two invocations under the same \<open>HashRule\<close>, the same vertex shader
  state of the device and the same \<open>maxIndexValue\<close>, on geometries with the same content
  (the same counts, topology, flags, formats, strides, index type and mapped bytes, and the
  same vertex layout hash) deliver the same result: the same \<open>GeometryHashes\<close>, with
  every entry and the precombined hash, or the same fault; and a result is always
  delivered. The identities of the buffers and the state of the worker queue do not
  matter.
\<close>

theorem delivered_hashes_deterministic:
  assumes "sameGeometryContent geoData geoData'"
    and "hashVertexLayout H geoData = hashVertexLayout H geoData'"
  shows "deliveredHashes H rule dev geoData maxIndexValue workers =
         deliveredHashes H rule dev geoData' maxIndexValue workers' \<and>
         (\<exists>r. deliveredHashes H rule dev geoData maxIndexValue workers = Some r)"
proof -
  from assms(1) have c:
    "geoIndexCount geoData = geoIndexCount geoData'" "geoVertexCount geoData = geoVertexCount geoData'"
    "topology geoData = topology geoData'"
    "sameBufferContent (offsetFromSlice (positionBuffer geoData)) (offsetFromSlice (positionBuffer geoData'))
        (positionBuffer geoData) (positionBuffer geoData')"
    "sameBufferContent (offsetFromSlice (texcoordBuffer geoData)) (offsetFromSlice (texcoordBuffer geoData'))
        (texcoordBuffer geoData) (texcoordBuffer geoData')"
    "sameBufferContent 0 0 (indexBuffer geoData) (indexBuffer geoData')"
    by (simp_all add: sameGeometryContent_def)
  have t: "sameTaskContent (taskOf H rule dev geoData maxIndexValue) (taskOf H rule dev geoData' maxIndexValue)"
    unfolding sameTaskContent_def
    using regionOf_content[OF c(4), of H "unat (geoVertexCount geoData)"]
          regionOf_content[OF c(5), of H "unat (geoVertexCount geoData)"] c(1,2,3,6) assms(2)
    by (auto simp: taskOf_def sameBufferContent_def sameRegionContent_def geometryDescriptorHashOf_def
          vertexLayoutHashOf_def)
  have f: "defined (positionBuffer geoData) = defined (positionBuffer geoData')"
          "(bufferPtr (positionBuffer geoData) = None) = (bufferPtr (positionBuffer geoData') = None)"
          "defined (texcoordBuffer geoData) = defined (texcoordBuffer geoData')"
          "(bufferPtr (texcoordBuffer geoData) = None) = (bufferPtr (texcoordBuffer geoData') = None)"
    using c(4,5) by (simp_all add: sameBufferContent_def)
  have "deliveredHashes H rule dev geoData maxIndexValue workers =
        deliveredHashes H rule dev geoData' maxIndexValue workers'"
    unfolding deliveredHashes_cases hashTaskBody_content[OF t] f ..
  with deliveredHashes_returns[of H rule dev geoData maxIndexValue workers] show ?thesis
    by simp
qed

theorem delivered_hashes_deterministic_witness:
  "deliveredHashes sampleHashing {VertexPosition, GeometryDescriptor, VertexShader} sampleDevice
     sampleGeometry 2 [] =
   deliveredHashes sampleHashing {VertexPosition, GeometryDescriptor, VertexShader} sampleDevice
     otherBufferGeometry 2 [sampleTask]"
proof -
  have h1: "sameGeometryContent sampleGeometry otherBufferGeometry"
    by (simp add: sameGeometryContent_def sameBufferContent_def otherBufferGeometry_def sampleGeometry_def
          mappedBuffer_def undefinedBuffer_def)
  have h2: "hashVertexLayout sampleHashing sampleGeometry = hashVertexLayout sampleHashing otherBufferGeometry"
    by (simp add: sampleHashing_def otherBufferGeometry_def sampleGeometry_def mappedBuffer_def)
  show ?thesis by (rule delivered_hashes_deterministic[OF h1 h2, THEN conjunct1])
qed

text \<open>
  The same geometry bytes under the same rule, hashed while two different vertex shaders
  are bound: the \<open>VertexShader\<close> entries differ.
\<close>

theorem vertex_shader_state_counterexample:
  "map_option (map_sum id (map_option (\<lambda>hashes. entries hashes VertexShader)))
     (deliveredHashes sampleHashing {VertexPosition, GeometryDescriptor, VertexShader} sampleDevice
        sampleGeometry 2 []) = Some (Inr (Some 10884283890199453297)) \<and>
   map_option (map_sum id (map_option (\<lambda>hashes. entries hashes VertexShader)))
     (deliveredHashes sampleHashing {VertexPosition, GeometryDescriptor, VertexShader} otherShaderDevice
        sampleGeometry 2 []) = Some (Inr (Some 3249927253577420568))"
  by code_simp

subsection \<open>Bounding boxes\<close>

text \<open>
  Claim C10. With bounding boxes enabled, a mapped position pointer (and the buffer
  behind it) and \<open>vertexCount = 0\<close>, \<open>computeAxisAlignedBoundingBox\<close> schedules a task and
  returns a valid \<open>Future\<close>; the task delivers the inverted box with the corners
  \<open>(FLT_MAX, FLT_MAX, FLT_MAX)\<close> and \<open>(-FLT_MAX, -FLT_MAX, -FLT_MAX)\<close>.
\<close>

theorem empty_vertex_stream_inverted_box:
  assumes "needsMeshBoundingBox"
    and "geoVertexCount geoData = 0"
    and "mapPtr (positionBuffer geoData) (offsetFromSlice (positionBuffer geoData)) = Some pVertexData"
    and "bufferPtr (positionBuffer geoData) = Some vertexBuffer"
  shows "computeAxisAlignedBoundingBox needsMeshBoundingBox geoData workers =
           (Inr (PendingFuture (length workers)), [IncRef vertexBuffer],
            workers @ [\<lparr>aabbPVertexData = pVertexData, aabbVertexCount = 0,
                          aabbVertexStride = stride (positionBuffer geoData),
                          aabbVertexBuffer = vertexBuffer\<rparr>]) \<and>
         aabbTaskBody \<lparr>aabbPVertexData = pVertexData, aabbVertexCount = 0,
                        aabbVertexStride = stride (positionBuffer geoData),
                        aabbVertexBuffer = vertexBuffer\<rparr> =
           (Inr (AxisAlignedBoundingBox (Vector3 FLT_MAX FLT_MAX FLT_MAX)
                   (Vector3 (fneg FLT_MAX) (fneg FLT_MAX) (fneg FLT_MAX))),
            [DecRef vertexBuffer])"
proof -
  have "aabbLoop pVertexData 0 (stride (positionBuffer geoData)) 0 0 (mm_set_ps1 FLT_MAX) (mm_set_ps1 (fneg FLT_MAX))
          = Inr (mm_set_ps1 FLT_MAX, mm_set_ps1 (fneg FLT_MAX))"
    by (subst aabbLoop.simps) simp
  then show ?thesis
    using assms by (simp add: computeAxisAlignedBoundingBox_def Schedule_def aabbTaskBody_def mm_set_ps1_def)
qed

theorem empty_vertex_stream_inverted_box_witness:
  "computeAxisAlignedBoundingBox True emptyDrawGeometry [] =
           (Inr (PendingFuture 0), [IncRef 1],
            [\<lparr>aabbPVertexData = sampleVertices, aabbVertexCount = 0,
               aabbVertexStride = 12, aabbVertexBuffer = 1\<rparr>]) \<and>
         aabbTaskBody \<lparr>aabbPVertexData = sampleVertices, aabbVertexCount = 0,
                        aabbVertexStride = 12, aabbVertexBuffer = 1\<rparr> =
           (Inr (AxisAlignedBoundingBox (Vector3 0x7F7FFFFF 0x7F7FFFFF 0x7F7FFFFF)
                   (Vector3 0xFF7FFFFF 0xFF7FFFFF 0xFF7FFFFF)),
            [DecRef 1])"
proof -
  have h2: "geoVertexCount emptyDrawGeometry = 0" by (simp add: emptyDrawGeometry_def)
  have h3: "mapPtr (positionBuffer emptyDrawGeometry) (offsetFromSlice (positionBuffer emptyDrawGeometry)) = Some sampleVertices"
    by (simp add: emptyDrawGeometry_def sampleGeometry_def mappedBuffer_def)
  have h4: "bufferPtr (positionBuffer emptyDrawGeometry) = Some 1"
    by (simp add: emptyDrawGeometry_def sampleGeometry_def mappedBuffer_def)
  have s: "stride (positionBuffer emptyDrawGeometry) = 12"
    by (simp add: emptyDrawGeometry_def sampleGeometry_def mappedBuffer_def)
  from empty_vertex_stream_inverted_box[OF TrueI h2 h3 h4, of "[]"]
  show ?thesis by (simp add: s FLT_MAX_def fneg_def)
qed


lemma isFinite_not_NaN: "isFinite a \<Longrightarrow> \<not> isNaN a"
  unfolding isFinite_def isNaN_def by (simp add: word_le_nat_alt word_less_nat_alt)

lemma floatOrder_bounds:
  assumes "isFinite a"
  shows "- 0x7F7FFFFF \<le> floatOrder a" "floatOrder a \<le> 0x7F7FFFFF"
proof -
  define u where "u = uint (a AND 0x7FFFFFFF)"
  have "u \<le> 0x7F7FFFFF"
    using assms by (simp add: isFinite_def word_le_def u_def)
  moreover have "0 \<le> u" by (simp add: u_def)
  moreover have "floatOrder a = (if bit a 31 then - u else u)" by (simp add: floatOrder_def u_def)
  ultimately show "- 0x7F7FFFFF \<le> floatOrder a" "floatOrder a \<le> 0x7F7FFFFF"
    by (simp_all split: if_splits)
qed

lemma floatOrder_FLT_MAX: "floatOrder FLT_MAX = 0x7F7FFFFF" "floatOrder (fneg FLT_MAX) = - 0x7F7FFFFF"
  by (simp_all add: floatOrder_def FLT_MAX_def fneg_def)

lemma isFinite_FLT_MAX: "isFinite FLT_MAX" "isFinite (fneg FLT_MAX)"
  by (simp_all add: isFinite_def FLT_MAX_def fneg_def)

lemma foldl_min_lane:
  assumes "\<forall>v \<in> set (a # vs). isFinite v"
  shows "foldl min_lane a vs \<in> set (a # vs) \<and>
         (\<forall>v \<in> set (a # vs). floatOrder (foldl min_lane a vs) \<le> floatOrder v)"
  using assms
proof (induction vs arbitrary: a)
  case Nil
  then show ?case by simp
next
  case (Cons b vs)
  let ?m = "min_lane a b"
  have fin: "isFinite a" "isFinite b" using Cons.prems by simp_all
  have m: "?m \<in> {a, b}" "floatOrder ?m \<le> floatOrder a" "floatOrder ?m \<le> floatOrder b"
    using fin by (auto simp: min_lane_def float_less_def isFinite_not_NaN)
  have "\<forall>v \<in> set (?m # vs). isFinite v" using Cons.prems m(1) by auto
  from Cons.IH[OF this] have
    ih: "foldl min_lane ?m vs \<in> set (?m # vs)"
        "\<forall>v \<in> set (?m # vs). floatOrder (foldl min_lane ?m vs) \<le> floatOrder v"
    by simp_all
  have "floatOrder (foldl min_lane ?m vs) \<le> floatOrder ?m" using ih(2) by simp
  with m have "floatOrder (foldl min_lane ?m vs) \<le> floatOrder a"
              "floatOrder (foldl min_lane ?m vs) \<le> floatOrder b" by linarith+
  with ih m(1) show ?case by auto
qed

lemma foldl_max_lane:
  assumes "\<forall>v \<in> set (a # vs). isFinite v"
  shows "foldl max_lane a vs \<in> set (a # vs) \<and>
         (\<forall>v \<in> set (a # vs). floatOrder v \<le> floatOrder (foldl max_lane a vs))"
  using assms
proof (induction vs arbitrary: a)
  case Nil
  then show ?case by simp
next
  case (Cons b vs)
  let ?m = "max_lane a b"
  have fin: "isFinite a" "isFinite b" using Cons.prems by simp_all
  have m: "?m \<in> {a, b}" "floatOrder a \<le> floatOrder ?m" "floatOrder b \<le> floatOrder ?m"
    using fin by (auto simp: max_lane_def float_less_def isFinite_not_NaN)
  have "\<forall>v \<in> set (?m # vs). isFinite v" using Cons.prems m(1) by auto
  from Cons.IH[OF this] have
    ih: "foldl max_lane ?m vs \<in> set (?m # vs)"
        "\<forall>v \<in> set (?m # vs). floatOrder v \<le> floatOrder (foldl max_lane ?m vs)"
    by simp_all
  have "floatOrder ?m \<le> floatOrder (foldl max_lane ?m vs)" using ih(2) by simp
  with m have "floatOrder a \<le> floatOrder (foldl max_lane ?m vs)"
              "floatOrder b \<le> floatOrder (foldl max_lane ?m vs)" by linarith+
  with ih m(1) show ?case by auto
qed

lemma min_lane_FLT_MAX: "isFinite v \<Longrightarrow> min_lane FLT_MAX v = v"
  using floatOrder_bounds(2)[of v]
  by (simp add: min_lane_def float_less_def floatOrder_FLT_MAX)

lemma max_lane_neg_FLT_MAX: "isFinite v \<Longrightarrow> max_lane (fneg FLT_MAX) v = v"
  using floatOrder_bounds(1)[of v]
  by (simp add: max_lane_def float_less_def floatOrder_FLT_MAX)

lemma foldl_min_lane_FLT_MAX:
  assumes "0 < n" and "\<forall>k<n. isFinite (f k)"
  shows "isMinimumOf (foldl min_lane FLT_MAX (map f [0..<n])) f n"
proof -
  from assms(1) have l: "map f [0..<n] = f 0 # map f [1..<n]"
    by (simp add: upt_conv_Cons del: upt_Suc)
  have s: "set (f 0 # map f [1..<n]) = f ` {..<n}"
    using l by (metis atLeast_upt set_map)
  have fin: "\<forall>v \<in> set (f 0 # map f [1..<n]). isFinite v"
    unfolding s using assms(2) by auto
  have e: "foldl min_lane FLT_MAX (map f [0..<n]) = foldl min_lane (f 0) (map f [1..<n])"
    unfolding l using assms by (simp add: min_lane_FLT_MAX)
  from foldl_min_lane[OF fin] show ?thesis
    unfolding e isMinimumOf_def s by auto
qed

lemma foldl_max_lane_FLT_MAX:
  assumes "0 < n" and "\<forall>k<n. isFinite (f k)"
  shows "isMaximumOf (foldl max_lane (fneg FLT_MAX) (map f [0..<n])) f n"
proof -
  from assms(1) have l: "map f [0..<n] = f 0 # map f [1..<n]"
    by (simp add: upt_conv_Cons del: upt_Suc)
  have s: "set (f 0 # map f [1..<n]) = f ` {..<n}"
    using l by (metis atLeast_upt set_map)
  have fin: "\<forall>v \<in> set (f 0 # map f [1..<n]). isFinite v"
    unfolding s using assms(2) by auto
  have e: "foldl max_lane (fneg FLT_MAX) (map f [0..<n]) = foldl max_lane (f 0) (map f [1..<n])"
    unfolding l using assms by (simp add: max_lane_neg_FLT_MAX)
  from foldl_max_lane[OF fin] show ?thesis
    unfolding e isMaximumOf_def s by auto
qed

lemma aabbLoop_foldl:
  assumes "unat i \<le> unat n"
    and "\<forall>k. unat i \<le> k \<and> k < unat n \<longrightarrow>
           readVector3 mem (p + (k - unat i) * vertexStride) = Inr (Vector3 (xs k) (ys k) (zs k))"
  shows "aabbLoop mem n vertexStride i p (M128 a0 a1 a2 a3) (M128 b0 b1 b2 b3) =
           Inr (M128 (foldl min_lane a0 (map xs [unat i..<unat n]))
                     (foldl min_lane a1 (map ys [unat i..<unat n]))
                     (foldl min_lane a2 (map zs [unat i..<unat n]))
                     (foldl min_lane a3 (map (\<lambda>_. 0) [unat i..<unat n])),
                M128 (foldl max_lane b0 (map xs [unat i..<unat n]))
                     (foldl max_lane b1 (map ys [unat i..<unat n]))
                     (foldl max_lane b2 (map zs [unat i..<unat n]))
                     (foldl max_lane b3 (map (\<lambda>_. 0) [unat i..<unat n])))"
  using assms
proof (induction "unat n - unat i" arbitrary: i p a0 a1 a2 a3 b0 b1 b2 b3)
  case 0
  then have "unat i = unat n" by simp
  then have "\<not> i < n" by (simp add: word_less_nat_alt)
  then show ?case using \<open>unat i = unat n\<close> by (subst aabbLoop.simps) simp
next
  case (Suc d)
  then have lt: "unat i < unat n" by simp
  then have iltn: "i < n" by (simp add: word_less_nat_alt)
  then have suc: "unat (i + 1) = unat i + 1" by unat_arith
  have r: "readVector3 mem p = Inr (Vector3 (xs (unat i)) (ys (unat i)) (zs (unat i)))"
    using Suc.prems(2)[rule_format, of "unat i"] lt by simp
  have d: "d = unat n - unat (i + 1)" using Suc.hyps(2) suc by simp
  have le: "unat (i + 1) \<le> unat n" using lt suc by simp
  have reads: "\<forall>k. unat (i + 1) \<le> k \<and> k < unat n \<longrightarrow>
           readVector3 mem (p + vertexStride + (k - unat (i + 1)) * vertexStride) = Inr (Vector3 (xs k) (ys k) (zs k))"
  proof (intro allI impI)
    fix k assume k: "unat (i + 1) \<le> k \<and> k < unat n"
    then have "unat i \<le> k \<and> k < unat n" using suc by simp
    from Suc.prems(2)[rule_format, OF this]
    have "readVector3 mem (p + (k - unat i) * vertexStride) = Inr (Vector3 (xs k) (ys k) (zs k))" .
    moreover have "k - unat i = Suc (k - unat (i + 1))" using k suc by linarith
    ultimately show "readVector3 mem (p + vertexStride + (k - unat (i + 1)) * vertexStride) = Inr (Vector3 (xs k) (ys k) (zs k))"
      by (simp add: add.assoc)
  qed
  have upt: "[unat i..<unat n] = unat i # [unat (i + 1)..<unat n]"
    using lt suc by (simp add: upt_conv_Cons)
  have step: "aabbLoop mem n vertexStride i p (M128 a0 a1 a2 a3) (M128 b0 b1 b2 b3) =
      aabbLoop mem n vertexStride (i + 1) (p + vertexStride)
        (M128 (min_lane a0 (xs (unat i))) (min_lane a1 (ys (unat i))) (min_lane a2 (zs (unat i))) (min_lane a3 0))
        (M128 (max_lane b0 (xs (unat i))) (max_lane b1 (ys (unat i))) (max_lane b2 (zs (unat i))) (max_lane b3 0))"
    by (subst aabbLoop.simps) (simp add: iltn r mm_set_ps_def)
  show ?case
    unfolding step Suc.hyps(1)[OF d le reads] upt by simp
qed


text \<open>
  Claim C8, amended. With bounding boxes enabled, a mapped position pointer,
  \<open>vertexCount >= 1\<close> and finite coordinates (no NaN, no infinity) in every position read
  at the given stride, the delivered box has in each component of its min corner the least,
  and in each component of its max corner the greatest, of the \<open>vertexCount\<close> coordinates.
\<close>

theorem bounding_box_of_finite_vertices:
  assumes "needsMeshBoundingBox"
    and "mapPtr (positionBuffer geoData) (offsetFromSlice (positionBuffer geoData)) = Some pVertexData"
    and "bufferPtr (positionBuffer geoData) = Some vertexBuffer"
    and "0 < unat (geoVertexCount geoData)"
    and "\<forall>k<unat (geoVertexCount geoData).
           readVector3 pVertexData (k * stride (positionBuffer geoData)) = Inr (Vector3 (xs k) (ys k) (zs k)) \<and>
           isFinite (xs k) \<and> isFinite (ys k) \<and> isFinite (zs k)"
  shows "\<exists>task min0 min1 min2 max0 max1 max2.
           computeAxisAlignedBoundingBox needsMeshBoundingBox geoData workers =
             (Inr (PendingFuture (length workers)), [IncRef vertexBuffer], workers @ [task]) \<and>
           aabbTaskBody task =
             (Inr (AxisAlignedBoundingBox (Vector3 min0 min1 min2) (Vector3 max0 max1 max2)),
              [DecRef vertexBuffer]) \<and>
           isMinimumOf min0 xs (unat (geoVertexCount geoData)) \<and>
           isMinimumOf min1 ys (unat (geoVertexCount geoData)) \<and>
           isMinimumOf min2 zs (unat (geoVertexCount geoData)) \<and>
           isMaximumOf max0 xs (unat (geoVertexCount geoData)) \<and>
           isMaximumOf max1 ys (unat (geoVertexCount geoData)) \<and>
           isMaximumOf max2 zs (unat (geoVertexCount geoData))"
proof -
  let ?n = "unat (geoVertexCount geoData)"
  let ?task = "\<lparr>aabbPVertexData = pVertexData, aabbVertexCount = geoVertexCount geoData,
                 aabbVertexStride = stride (positionBuffer geoData), aabbVertexBuffer = vertexBuffer\<rparr>"
  have c: "computeAxisAlignedBoundingBox needsMeshBoundingBox geoData workers =
             (Inr (PendingFuture (length workers)), [IncRef vertexBuffer], workers @ [?task])"
    using assms(1,2,3) by (simp add: computeAxisAlignedBoundingBox_def Schedule_def)
  have reads: "\<forall>k. unat (0 :: uint32_t) \<le> k \<and> k < ?n \<longrightarrow>
           readVector3 pVertexData (0 + (k - unat (0 :: uint32_t)) * stride (positionBuffer geoData)) =
             Inr (Vector3 (xs k) (ys k) (zs k))"
    using assms(5) by simp
  have l: "aabbLoop pVertexData (geoVertexCount geoData) (stride (positionBuffer geoData)) 0 0
             (M128 FLT_MAX FLT_MAX FLT_MAX FLT_MAX)
             (M128 (fneg FLT_MAX) (fneg FLT_MAX) (fneg FLT_MAX) (fneg FLT_MAX)) =
           Inr (M128 (foldl min_lane FLT_MAX (map xs [0..<?n]))
                     (foldl min_lane FLT_MAX (map ys [0..<?n]))
                     (foldl min_lane FLT_MAX (map zs [0..<?n]))
                     (foldl min_lane FLT_MAX (map (\<lambda>_. 0) [0..<?n])),
                M128 (foldl max_lane (fneg FLT_MAX) (map xs [0..<?n]))
                     (foldl max_lane (fneg FLT_MAX) (map ys [0..<?n]))
                     (foldl max_lane (fneg FLT_MAX) (map zs [0..<?n]))
                     (foldl max_lane (fneg FLT_MAX) (map (\<lambda>_. 0) [0..<?n])))"
    using aabbLoop_foldl[of 0 "geoVertexCount geoData", OF _ reads] by simp
  have b: "aabbTaskBody ?task =
     (Inr (AxisAlignedBoundingBox
             (Vector3 (foldl min_lane FLT_MAX (map xs [0..<?n])) (foldl min_lane FLT_MAX (map ys [0..<?n]))
                      (foldl min_lane FLT_MAX (map zs [0..<?n])))
             (Vector3 (foldl max_lane (fneg FLT_MAX) (map xs [0..<?n]))
                      (foldl max_lane (fneg FLT_MAX) (map ys [0..<?n]))
                      (foldl max_lane (fneg FLT_MAX) (map zs [0..<?n])))),
      [DecRef vertexBuffer])"
    by (simp add: aabbTaskBody_def mm_set_ps1_def l)
  have fx: "\<forall>k<?n. isFinite (xs k)" and fy: "\<forall>k<?n. isFinite (ys k)" and fz: "\<forall>k<?n. isFinite (zs k)"
    using assms(5) by simp_all
  note m = foldl_min_lane_FLT_MAX[OF assms(4) fx] foldl_min_lane_FLT_MAX[OF assms(4) fy]
           foldl_min_lane_FLT_MAX[OF assms(4) fz]
           foldl_max_lane_FLT_MAX[OF assms(4) fx] foldl_max_lane_FLT_MAX[OF assms(4) fy]
           foldl_max_lane_FLT_MAX[OF assms(4) fz]
  from c b m show ?thesis by blast
qed

theorem bounding_box_of_finite_vertices_witness:
  "\<exists>task.
     computeAxisAlignedBoundingBox True twoVertexGeometry [] = (Inr (PendingFuture 0), [IncRef 1], [task]) \<and>
     aabbTaskBody task =
       (Inr (AxisAlignedBoundingBox (Vector3 0x3F800000 0 0xC0000000) (Vector3 0x40000000 0x3F800000 0xBF800000)),
        [DecRef 1])"
proof -
  let ?xs = "\<lambda>k :: nat. if k = 0 then 0x3F800000 else (0x40000000 :: float)"
  let ?ys = "\<lambda>k :: nat. if k = 0 then 0x3F800000 else (0 :: float)"
  let ?zs = "\<lambda>k :: nat. if k = 0 then 0xBF800000 else (0xC0000000 :: float)"
  have h2: "mapPtr (positionBuffer twoVertexGeometry) (offsetFromSlice (positionBuffer twoVertexGeometry)) = Some twoVertices"
    by (simp add: twoVertexGeometry_def mappedBuffer_def)
  have h3: "bufferPtr (positionBuffer twoVertexGeometry) = Some 1"
    by (simp add: twoVertexGeometry_def mappedBuffer_def)
  have n: "unat (geoVertexCount twoVertexGeometry) = 2" by (simp add: twoVertexGeometry_def)
  have h4: "0 < unat (geoVertexCount twoVertexGeometry)" by (simp add: n)
  have r0: "readVector3 twoVertices 0 = Inr (Vector3 0x3F800000 0x3F800000 0xBF800000)"
    by (simp add: readVector3_def twoVertices_def loadLE_def)
  have r1: "readVector3 twoVertices 12 = Inr (Vector3 0x40000000 0 0xC0000000)"
    by (simp add: readVector3_def twoVertices_def loadLE_def)
  have h5: "\<forall>k<unat (geoVertexCount twoVertexGeometry).
           readVector3 twoVertices (k * stride (positionBuffer twoVertexGeometry)) = Inr (Vector3 (?xs k) (?ys k) (?zs k)) \<and>
           isFinite (?xs k) \<and> isFinite (?ys k) \<and> isFinite (?zs k)"
    unfolding n
  proof (intro allI impI)
    fix k :: nat assume "k < 2"
    then consider "k = 0" | "k = 1" by linarith
    then show "readVector3 twoVertices (k * stride (positionBuffer twoVertexGeometry)) = Inr (Vector3 (?xs k) (?ys k) (?zs k)) \<and>
           isFinite (?xs k) \<and> isFinite (?ys k) \<and> isFinite (?zs k)"
      by cases (simp_all add: r0 r1 twoVertexGeometry_def mappedBuffer_def isFinite_def)
  qed
  have ev: "aabbTaskBody \<lparr>aabbPVertexData = twoVertices, aabbVertexCount = 2, aabbVertexStride = 12, aabbVertexBuffer = 1\<rparr> =
       (Inr (AxisAlignedBoundingBox (Vector3 0x3F800000 0 0xC0000000) (Vector3 0x40000000 0x3F800000 0xBF800000)),
        [DecRef 1])"
    by code_simp
  have c: "computeAxisAlignedBoundingBox True twoVertexGeometry [] =
     (Inr (PendingFuture 0), [IncRef 1],
      [\<lparr>aabbPVertexData = twoVertices, aabbVertexCount = 2, aabbVertexStride = 12, aabbVertexBuffer = 1\<rparr>])"
    by (simp add: computeAxisAlignedBoundingBox_def Schedule_def twoVertexGeometry_def mappedBuffer_def)
  from bounding_box_of_finite_vertices[OF TrueI h2 h3 h4 h5, of "[]"] c ev
  show ?thesis by auto
qed

text \<open>
  One vertex with \<open>x = +infinity\<close>: the min corner has \<open>x = FLT_MAX\<close>, which is less than the
  only \<open>x\<close> coordinate of the stream.
\<close>

theorem bounding_box_infinite_vertex_counterexample:
  "readVector3 infiniteVertex 0 = Inr (Vector3 0x7F800000 0x3F800000 0xBF800000) \<and>
   aabbTaskBody \<lparr>aabbPVertexData = infiniteVertex, aabbVertexCount = 1, aabbVertexStride = 12,
                  aabbVertexBuffer = 1\<rparr> =
     (Inr (AxisAlignedBoundingBox (Vector3 FLT_MAX 0x3F800000 0xBF800000)
             (Vector3 0x7F800000 0x3F800000 0xBF800000)), [DecRef 1]) \<and>
   float_less FLT_MAX 0x7F800000"
  by code_simp

end
